(* ===== verification/Prelude.thy ===== *)
theory Prelude
  imports Complex_Main "HOL-Library.Word"
begin

text \<open>
  Shared vocabulary of the QMC5883L driver model: the machine types of the C++ source
  (\<open>uint8_t\<close> registers, \<open>int16_t\<close> samples, \<open>hrt_abstime\<close> microsecond clock readings),
  the time literals of \<open>time_literals\<close>, the collection \<open>drv_defs\<close> of operation
  definitions that the component proofs unfold, and the generic facts about bit masks
  that the register layer and the configuration validator share.
\<close>

unbundle bit_operations_syntax

type_synonym byte = "8 word"
type_synonym int16 = "16 word"

text \<open>
  \<open>hrt_abstime\<close> is an unsigned 64-bit count of microseconds since boot; it does not
  wrap within the lifetime of a vehicle (\<open>2^64\<close> microseconds are about 584000
  years), so it is modelled as \<open>nat\<close>. The clock is monotonic, so \<open>hrt_elapsed_time\<close>,
  which subtracts a stored timestamp from the current time, is the truncated difference
  of \<open>nat\<close>; the invariant \<open>timestamps_le\<close> of the system theory shows that the stored
  timestamps never exceed the clock, so the truncation never happens.
\<close>

type_synonym hrt_abstime = nat

abbreviation ms :: "nat \<Rightarrow> hrt_abstime" where
  "ms n \<equiv> n * 1000"

abbreviation seconds :: "nat \<Rightarrow> hrt_abstime" where
  "seconds n \<equiv> n * 1000000"

named_theorems drv_defs "definitions of the driver operations, unfolded together"

subsection \<open>Lists\<close>

lemma notin_set_tl [simp]: "x \<notin> set xs \<Longrightarrow> x \<notin> set (tl xs)"
  by (cases xs) auto

subsection \<open>Bit masks\<close>

text \<open>
  \<open>(v AND NOT c) OR s\<close> is the value that \<open>RegisterSetAndClearBits\<close> writes. These
  facts are generic in the word length.
\<close>

lemma set_clear_idem [simp]:
  "((v AND NOT c) OR s) AND NOT c OR s = (v AND NOT c) OR (s :: 'a::len word)"
  by (rule bit_word_eqI) (auto simp: bit_simps)

lemma set_clear_has_set [simp]:
  "((v AND NOT c) OR s) AND s = (s :: 'a::len word)"
  by (rule bit_word_eqI) (auto simp: bit_simps)

lemma set_clear_clear_iff:
  "(((v AND NOT c) OR s) AND c = 0) \<longleftrightarrow> (s AND c = (0 :: 'a::len word))"
  by (auto simp: bit_eq_iff bit_simps)

text \<open>A mask equation read one bit at a time.\<close>

lemma bits_of_mask:
  assumes "v AND m = (k :: 'a::len word)"
  shows "bit v n \<and> bit m n \<longleftrightarrow> bit k n"
  using arg_cong [OF assms, of "\<lambda>w. bit w n"] by (simp add: bit_and_iff)

lemma and_zero_mono:
  "v AND c = 0 \<Longrightarrow> (v AND s) AND c = (0 :: 'a::len word)"
  by (auto simp: bit_eq_iff bit_simps)

end
