(* ===== verification/Registers.thy ===== *)
theory Registers
  imports Prelude
begin

text \<open>
  The device's register map, the bit constants the driver uses and the driver's
  configuration table. They are declared in \<open>QMC5883L_registers.hpp\<close> and
  \<open>QMC5883L.hpp\<close>, which are not part of the sources under \<open>src/\<close>; the values follow
  the QMC5883L data sheet as those headers state them. Following the design notes of the
  specification, a register is an enumeration, not a raw number; \<open>reg_addr\<close> is the
  \<open>static_cast<uint8_t>\<close> the driver applies before a transfer, and the enumeration is
  ordered by address (an instance of \<open>linorder\<close>).
\<close>

datatype Register =
    X_LSB | X_MSB | Y_LSB | Y_MSB | Z_LSB | Z_MSB | STATUS
  | TEMP_LSB | TEMP_MSB | CNTL1 | CNTL2 | SET_RESET | CHIP_ID

fun reg_addr :: "Register \<Rightarrow> byte" where
  "reg_addr X_LSB = 0x00"
| "reg_addr X_MSB = 0x01"
| "reg_addr Y_LSB = 0x02"
| "reg_addr Y_MSB = 0x03"
| "reg_addr Z_LSB = 0x04"
| "reg_addr Z_MSB = 0x05"
| "reg_addr STATUS = 0x06"
| "reg_addr TEMP_LSB = 0x07"
| "reg_addr TEMP_MSB = 0x08"
| "reg_addr CNTL1 = 0x09"
| "reg_addr CNTL2 = 0x0A"
| "reg_addr SET_RESET = 0x0B"
| "reg_addr CHIP_ID = 0x0D"

text \<open>Bit constants (\<open>STATUS_BIT\<close>, \<open>CNTL1_BIT\<close>, \<open>CNTL2_BIT\<close>, \<open>SET_RESET_BIT\<close>).\<close>

definition STATUS_BIT_DRDY :: byte where "STATUS_BIT_DRDY = 0x01"
definition STATUS_BIT_OVL :: byte where "STATUS_BIT_OVL = 0x02"
definition CNTL1_BIT_MODE_CONTINUOUS :: byte where "CNTL1_BIT_MODE_CONTINUOUS = 0x01"
definition CNTL1_BIT_ODR_50HZ :: byte where "CNTL1_BIT_ODR_50HZ = 0x04"
definition CNTL1_BIT_RNG_2G :: byte where "CNTL1_BIT_RNG_2G = 0x30"
definition CNTL1_BIT_OSR_512 :: byte where "CNTL1_BIT_OSR_512 = 0xC0"
definition CNTL2_BIT_SOFT_RST :: byte where "CNTL2_BIT_SOFT_RST = 0x80"
definition SET_RESET_BIT_FBR :: byte where "SET_RESET_BIT_FBR = 0x01"

lemmas bit_constants =
  STATUS_BIT_DRDY_def STATUS_BIT_OVL_def CNTL1_BIT_MODE_CONTINUOUS_def CNTL1_BIT_ODR_50HZ_def
  CNTL1_BIT_RNG_2G_def CNTL1_BIT_OSR_512_def CNTL2_BIT_SOFT_RST_def SET_RESET_BIT_FBR_def

text \<open>\<open>register_config_t\<close>: a register and the bits to set and to clear in it.\<close>

record register_config_t =
  reg :: Register
  set_bits :: byte
  clear_bits :: byte

text \<open>
  \<open>_register_cfg\<close>: 50 Hz continuous mode with oversampling 512 and the 2 Gauss range
  (whose field codes are 00, hence cleared), and the set/reset period register.
\<close>

definition register_cfg :: "register_config_t list" where
  "register_cfg =
     [\<lparr>reg = CNTL1, set_bits = CNTL1_BIT_ODR_50HZ OR CNTL1_BIT_MODE_CONTINUOUS,
       clear_bits = CNTL1_BIT_OSR_512 OR CNTL1_BIT_RNG_2G\<rparr>,
      \<lparr>reg = SET_RESET, set_bits = SET_RESET_BIT_FBR, clear_bits = 0\<rparr>]"

text \<open>
  Well-formedness of a table (specification, section 3): no entry both sets and clears
  a bit, and no register is listed twice, so that applying one entry never undoes another.
\<close>

definition entry_wf :: "register_config_t \<Rightarrow> bool" where
  "entry_wf c \<longleftrightarrow> set_bits c AND clear_bits c = 0"

definition cfg_wf :: "register_config_t list \<Rightarrow> bool" where
  "cfg_wf cfg \<longleftrightarrow> cfg \<noteq> [] \<and> distinct (map reg cfg) \<and> list_all entry_wf cfg"

subsection \<open>The register enumeration is ordered by address\<close>

instantiation Register :: linorder
begin

definition less_eq_Register :: "Register \<Rightarrow> Register \<Rightarrow> bool" where
  "less_eq_Register r s \<longleftrightarrow> reg_addr r \<le> reg_addr s"

definition less_Register :: "Register \<Rightarrow> Register \<Rightarrow> bool" where
  "less_Register r s \<longleftrightarrow> reg_addr r < reg_addr s"

instance
proof
  fix r s t :: Register
  show "(r < s) = (r \<le> s \<and> \<not> s \<le> r)"
    by (auto simp: less_eq_Register_def less_Register_def)
  show "r \<le> r" by (simp add: less_eq_Register_def)
  show "r \<le> s \<Longrightarrow> s \<le> t \<Longrightarrow> r \<le> t"
    by (simp add: less_eq_Register_def)
  show "r \<le> s \<Longrightarrow> s \<le> r \<Longrightarrow> r = s"
  proof -
    assume "r \<le> s" and "s \<le> r"
    then have "reg_addr r = reg_addr s"
      by (simp add: less_eq_Register_def)
    then show "r = s"
      by (cases r; cases s) simp_all
  qed
  show "r \<le> s \<or> s \<le> r"
    by (auto simp: less_eq_Register_def)
qed

end

lemma reg_addr_inj: "reg_addr r = reg_addr s \<longleftrightarrow> r = s"
  by (cases r; cases s) simp_all

lemma register_cfg_wf: "cfg_wf register_cfg"
  by (simp add: cfg_wf_def register_cfg_def entry_wf_def bit_constants)

end
