(* ===== verification/Bus.thy ===== *)
theory Bus
  imports Registers
begin

text \<open>
  The Byte Transfer Port (\<open>device::I2C::transfer\<close>, outside \<open>src/\<close>) and the Register
  Access Layer built on it (\<open>RegisterRead\<close>, \<open>RegisterWrite\<close>,
  \<open>RegisterSetAndClearBits\<close> of \<open>QMC5883L.cpp\<close>).

  The bus state is the device's register file (\<open>dev\<close>, indexed by register address),
  a fault script (\<open>faults\<close>: the outcome of the next transfers, \<open>True\<close> for a failed
  one; an exhausted script means the bus works) and the trace of the transfers issued,
  newest first. A transfer sends its command bytes: the first is the register address,
  the following ones are written to consecutive registers; it then reads the requested
  number of bytes from the registers that follow (the device auto-increments its
  register pointer). A failed transfer changes no register and leaves the caller's
  zero-initialised buffer (\<open>buffer{}\<close>) untouched.
\<close>

datatype bus_op = Transfer "byte list" nat

record bus =
  dev :: "byte \<Rightarrow> byte"
  faults :: "bool list"
  trace :: "bus_op list"

definition fault_now :: "bus \<Rightarrow> bool" where
  "fault_now b = (case faults b of [] \<Rightarrow> False | f # _ \<Rightarrow> f)"

fun dev_store :: "(byte \<Rightarrow> byte) \<Rightarrow> byte \<Rightarrow> byte list \<Rightarrow> (byte \<Rightarrow> byte)" where
  "dev_store d a [] = d"
| "dev_store d a (v # vs) = dev_store (d(a := v)) (a + 1) vs"

definition dev_load :: "(byte \<Rightarrow> byte) \<Rightarrow> byte \<Rightarrow> nat \<Rightarrow> byte list" where
  "dev_load d a n = map (\<lambda>i. d (a + of_nat i)) [0..<n]"

definition transfer :: "byte list \<Rightarrow> nat \<Rightarrow> bus \<Rightarrow> bool \<times> byte list \<times> bus" where
  "transfer cmd n b =
     (let b1 = b\<lparr>faults := tl (faults b), trace := Transfer cmd n # trace b\<rparr>
      in case cmd of
           [] \<Rightarrow> (False, replicate n 0, b1)
         | a # vs \<Rightarrow>
             (if fault_now b then (False, replicate n 0, b1)
              else let d' = dev_store (dev b) a vs
                   in (True, dev_load d' (a + of_nat (length vs)) n, b1\<lparr>dev := d'\<rparr>)))"

text \<open>\<open>RegisterRead\<close> ignores the result of the transfer and returns the buffer.\<close>

definition RegisterRead :: "Register \<Rightarrow> bus \<Rightarrow> byte \<times> bus" where
  "RegisterRead r b = (let (_, buffer, b') = transfer [reg_addr r] 1 b in (hd buffer, b'))"

definition RegisterWrite :: "Register \<Rightarrow> byte \<Rightarrow> bus \<Rightarrow> bus" where
  "RegisterWrite r v b = snd (snd (transfer [reg_addr r, v] 0 b))"

definition RegisterSetAndClearBits :: "Register \<Rightarrow> byte \<Rightarrow> byte \<Rightarrow> bus \<Rightarrow> bus" where
  "RegisterSetAndClearBits r setbits clearbits b =
     (let (orig_val, b1) = RegisterRead r b;
          val = (orig_val AND NOT clearbits) OR setbits
      in if orig_val \<noteq> val then RegisterWrite r val b1 else b1)"

text \<open>
  The status code of a transfer as the driver sees it: \<open>PX4_OK\<close> on success, a
  negative error code on failure. The model does not tell error codes apart and uses
  \<open>PX4_ERROR\<close> for all of them.
\<close>

abbreviation PX4_OK :: int where
  "PX4_OK \<equiv> 0"

abbreviation PX4_ERROR :: int where
  "PX4_ERROR \<equiv> -1"

text \<open>\<open>probe\<close>: the device has no identifier, so the driver reads \<open>X_LSB\<close> once.\<close>

definition probe :: "bus \<Rightarrow> int \<times> bus" where
  "probe b = (let (ok, buffer, b') = transfer [reg_addr X_LSB] 1 b in (if ok then PX4_OK else PX4_ERROR, b'))"

text \<open>A bus whose fault script holds no failure: every transfer succeeds.\<close>

definition reliable :: "bus \<Rightarrow> bool" where
  "reliable b \<longleftrightarrow> True \<notin> set (faults b)"

text \<open>A bus on which the next \<open>n\<close> transfers all fail.\<close>

definition down :: "nat \<Rightarrow> bus \<Rightarrow> bool" where
  "down n b \<longleftrightarrow> (\<exists>fs. faults b = replicate n True @ fs)"

text \<open>Writes are the transfers with a value after the address.\<close>

fun is_write :: "bus_op \<Rightarrow> bool" where
  "is_write (Transfer cmd n) \<longleftrightarrow> 2 \<le> length cmd"

definition writes :: "bus_op list \<Rightarrow> nat" where
  "writes tr = length (filter is_write tr)"

text \<open>A device with every register at \<open>0\<close> on a working bus, used by the examples.\<close>

definition quiet_bus :: bus where
  "quiet_bus = \<lparr>dev = (\<lambda>_. 0), faults = [], trace = []\<rparr>"

subsection \<open>Transfers\<close>

lemma transfer_length [simp]: "length (fst (snd (transfer cmd n b))) = n"
  by (simp add: transfer_def dev_load_def Let_def split: list.split)

lemma transfer_trace [simp]: "trace (snd (snd (transfer cmd n b))) = Transfer cmd n # trace b"
  by (simp add: transfer_def Let_def split: list.split)

lemma transfer_faults [simp]: "faults (snd (snd (transfer cmd n b))) = tl (faults b)"
  by (simp add: transfer_def Let_def split: list.split)

lemma fault_now_trace [simp]: "fault_now (b\<lparr>trace := t\<rparr>) = fault_now b"
  by (simp add: fault_now_def)

lemma no_fault_now [simp]: "True \<notin> set (faults b) \<Longrightarrow> \<not> fault_now b"
  by (auto simp: fault_now_def split: list.split)

lemma reliable_fault_now: "reliable b \<Longrightarrow> \<not> fault_now b"
  by (simp add: reliable_def)

lemma reliable_transfer [intro]: "reliable b \<Longrightarrow> reliable (snd (snd (transfer cmd n b)))"
  by (simp add: reliable_def)

text \<open>The transfer of one address byte and a response: a register read.\<close>

lemma transfer_read:
  "transfer [a] n b =
     (\<not> fault_now b,
      (if fault_now b then replicate n 0 else dev_load (dev b) a n),
      b\<lparr>faults := tl (faults b), trace := Transfer [a] n # trace b\<rparr>)"
  by (simp add: transfer_def)

lemma transfer_write:
  "transfer [a, v] 0 b =
     (\<not> fault_now b, [],
      b\<lparr>faults := tl (faults b), trace := Transfer [a, v] 0 # trace b,
        dev := (if fault_now b then dev b else (dev b)(a := v))\<rparr>)"
  by (simp add: transfer_def dev_load_def)

lemma dev_load_Suc0 [simp]: "dev_load d a (Suc 0) = [d a]"
  by (simp add: dev_load_def)

subsection \<open>Register access\<close>

text \<open>A read returns the register on success and \<open>0\<close> on a failed transfer.\<close>

lemma RegisterRead_eq:
  "RegisterRead r b =
     (if fault_now b then 0 else dev b (reg_addr r),
      b\<lparr>faults := tl (faults b), trace := Transfer [reg_addr r] 1 # trace b\<rparr>)"
  by (simp add: RegisterRead_def transfer_read)

lemma RegisterWrite_eq:
  "RegisterWrite r v b =
     b\<lparr>faults := tl (faults b), trace := Transfer [reg_addr r, v] 0 # trace b,
       dev := (if fault_now b then dev b else (dev b)(reg_addr r := v))\<rparr>"
  by (simp add: RegisterWrite_def transfer_write)

declare RegisterRead_eq [drv_defs] RegisterWrite_eq [drv_defs]

lemma RegisterRead_reliable [intro]: "reliable b \<Longrightarrow> reliable (snd (RegisterRead r b))"
  by (simp add: RegisterRead_eq reliable_def)

lemma RegisterWrite_reliable [intro]: "reliable b \<Longrightarrow> reliable (RegisterWrite r v b)"
  by (simp add: RegisterWrite_eq reliable_def)

lemma writes_Cons [simp]:
  "writes (Transfer cmd n # tr) = (if 2 \<le> length cmd then Suc (writes tr) else writes tr)"
  by (simp add: writes_def)

lemma RegisterSetAndClearBits_dev:
  "reliable b \<Longrightarrow>
   dev (RegisterSetAndClearBits r s c b) = (dev b)(reg_addr r := (dev b (reg_addr r) AND NOT c) OR s)"
  by (auto simp: RegisterSetAndClearBits_def RegisterRead_eq RegisterWrite_eq Let_def reliable_def)

lemma RegisterSetAndClearBits_writes:
  "reliable b \<Longrightarrow>
   writes (trace (RegisterSetAndClearBits r s c b)) =
     writes (trace b) + (if (dev b (reg_addr r) AND NOT c) OR s = dev b (reg_addr r) then 0 else 1)"
  by (auto simp: RegisterSetAndClearBits_def RegisterRead_eq RegisterWrite_eq Let_def reliable_def)

text \<open>
  C17: read-modify-write on a working bus. The register ends up holding
  \<open>(orig AND NOT clearbits) OR setbits\<close>, no other register changes, and a write is
  issued exactly when that value differs from the register's old value.
\<close>

theorem RegisterSetAndClearBits_effect:
  assumes "reliable b"
  shows "dev (RegisterSetAndClearBits r s c b) = (dev b)(reg_addr r := (dev b (reg_addr r) AND NOT c) OR s)
    \<and> writes (trace (RegisterSetAndClearBits r s c b)) =
        writes (trace b) + (if (dev b (reg_addr r) AND NOT c) OR s = dev b (reg_addr r) then 0 else 1)"
  using assms by (simp add: RegisterSetAndClearBits_dev RegisterSetAndClearBits_writes)

text \<open>
  C18: a failed read makes \<open>RegisterSetAndClearBits\<close> compute from \<open>0\<close>: when the write
  that follows goes through, the register is overwritten with \<open>setbits\<close> alone and every
  bit the entry does not mention is lost.
\<close>

theorem RegisterSetAndClearBits_failed_read:
  assumes "faults b = True # False # fs" and "s \<noteq> 0"
  shows "dev (RegisterSetAndClearBits r s c b) = (dev b)(reg_addr r := s)"
  using assms
  by (simp add: RegisterSetAndClearBits_def RegisterRead_eq RegisterWrite_eq fault_now_def)

theorem RegisterSetAndClearBits_effect_witness:
  "reliable quiet_bus
   \<and> dev (RegisterSetAndClearBits CNTL1 0x05 0xF0 quiet_bus) (reg_addr CNTL1) = 0x05
   \<and> writes (trace (RegisterSetAndClearBits CNTL1 0x05 0xF0 quiet_bus)) = 1"
proof -
  have h: "reliable quiet_bus" by (simp add: reliable_def quiet_bus_def)
  show ?thesis
    using RegisterSetAndClearBits_effect [OF h, of CNTL1 "0x05" "0xF0"] h
    by (simp add: quiet_bus_def writes_def)
qed

theorem RegisterSetAndClearBits_failed_read_witness:
  "faults (quiet_bus\<lparr>dev := (\<lambda>_. 0x08), faults := [True, False]\<rparr>) = True # False # []
   \<and> (0x05 :: byte) \<noteq> 0
   \<and> dev (quiet_bus\<lparr>dev := (\<lambda>_. 0x08), faults := [True, False]\<rparr>) (reg_addr CNTL1) = 0x08
   \<and> dev (RegisterSetAndClearBits CNTL1 0x05 0xF0
          (quiet_bus\<lparr>dev := (\<lambda>_. 0x08), faults := [True, False]\<rparr>)) (reg_addr CNTL1) = 0x05"
  using RegisterSetAndClearBits_failed_read
      [of "quiet_bus\<lparr>dev := (\<lambda>_. 0x08), faults := [True, False]\<rparr>" "[]" "0x05" CNTL1 "0xF0"]
  by simp

lemma RegisterSetAndClearBits_reliable [intro]:
  "reliable b \<Longrightarrow> reliable (RegisterSetAndClearBits r s c b)"
  by (simp add: RegisterSetAndClearBits_def RegisterRead_eq RegisterWrite_eq reliable_def Let_def)

subsection \<open>A bus that is down\<close>

lemma down_fault_now: "down (Suc n) b \<Longrightarrow> fault_now b"
  by (auto simp: down_def fault_now_def)

lemma down_tl: "down (Suc n) b \<Longrightarrow> down n (b\<lparr>faults := tl (faults b), trace := t\<rparr>)"
  by (auto simp: down_def)

lemma down_Suc_down: "down (Suc n) b \<Longrightarrow> down n b"
  unfolding down_def by (metis replicate_Suc replicate_app_Cons_same append_Cons)

lemma down_add: "down (m + n) b \<Longrightarrow> down n b"
  by (induction m) (auto dest: down_Suc_down)

lemma RegisterRead_down:
  "down (Suc n) b \<Longrightarrow> fst (RegisterRead r b) = 0 \<and> down n (snd (RegisterRead r b))
     \<and> dev (snd (RegisterRead r b)) = dev b"
  by (simp add: RegisterRead_eq down_fault_now down_tl)

lemma RegisterWrite_down:
  "down (Suc n) b \<Longrightarrow> down n (RegisterWrite r v b) \<and> dev (RegisterWrite r v b) = dev b"
proof -
  assume d: "down (Suc n) b"
  have "RegisterWrite r v b =
      (b\<lparr>faults := tl (faults b), trace := Transfer [reg_addr r, v] 0 # trace b\<rparr>)"
    using d by (simp add: RegisterWrite_eq down_fault_now)
  with d show ?thesis by (simp add: down_tl)
qed

lemma RegisterSetAndClearBits_down:
  "down (Suc (Suc n)) b \<Longrightarrow>
   down n (RegisterSetAndClearBits r s c b) \<and> dev (RegisterSetAndClearBits r s c b) = dev b"
  unfolding RegisterSetAndClearBits_def
  using RegisterRead_down [of "Suc n" b r] RegisterWrite_down [of n "snd (RegisterRead r b)"]
  by (auto simp: Let_def case_prod_beta dest: down_Suc_down)

text \<open>
  C24: \<open>probe\<close> reports the outcome of its one transfer: \<open>PX4_OK\<close> exactly when the
  read of \<open>X_LSB\<close> succeeds, an error code when it fails. It writes no register and
  issues a single one-byte read of \<open>X_LSB\<close>.
\<close>

theorem probe_status:
  "fst (probe b) = (if fault_now b then PX4_ERROR else PX4_OK)
   \<and> dev (snd (probe b)) = dev b
   \<and> trace (snd (probe b)) = Transfer [reg_addr X_LSB] 1 # trace b"
  by (simp add: probe_def transfer_read Let_def)

end
