(* ===== verification/Config.thy ===== *)
theory Config
  imports Bus
begin

text \<open>
  The Configuration Validator (\<open>RegisterCheck\<close>, \<open>QMC5883L.cpp\<close> lines 258--275) and
  the two loops of \<open>Configure\<close> (lines 239--251): the first applies every entry of the
  table with \<open>RegisterSetAndClearBits\<close>, the second re-reads every register and records a
  failure without stopping. \<open>apply_entries\<close> is the abstract effect of the first loop on
  the register file; \<open>configure_apply_refines\<close> shows that the bus-level loop implements
  it on a working bus.
\<close>

definition check_value :: "register_config_t \<Rightarrow> byte \<Rightarrow> bool" where
  "check_value reg_cfg reg_value =
     (let success = True;
          success = (if set_bits reg_cfg \<noteq> 0 \<and> reg_value AND set_bits reg_cfg \<noteq> set_bits reg_cfg
                     then False else success);
          success = (if clear_bits reg_cfg \<noteq> 0 \<and> reg_value AND clear_bits reg_cfg \<noteq> 0
                     then False else success)
      in success)"

definition RegisterCheck :: "register_config_t \<Rightarrow> bus \<Rightarrow> bool \<times> bus" where
  "RegisterCheck reg_cfg b =
     (let (reg_value, b') = RegisterRead (reg reg_cfg) b in (check_value reg_cfg reg_value, b'))"

fun configure_apply :: "register_config_t list \<Rightarrow> bus \<Rightarrow> bus" where
  "configure_apply [] b = b"
| "configure_apply (c # cs) b =
     configure_apply cs (RegisterSetAndClearBits (reg c) (set_bits c) (clear_bits c) b)"

fun configure_check :: "register_config_t list \<Rightarrow> bool \<Rightarrow> bus \<Rightarrow> bool \<times> bus" where
  "configure_check [] success b = (success, b)"
| "configure_check (c # cs) success b =
     (let (ok, b') = RegisterCheck c b in configure_check cs (if \<not> ok then False else success) b')"

text \<open>The value an entry asks for, and its effect on a register file.\<close>

definition target :: "register_config_t \<Rightarrow> byte \<Rightarrow> byte" where
  "target c v = (v AND NOT (clear_bits c)) OR set_bits c"

fun apply_entries :: "register_config_t list \<Rightarrow> (byte \<Rightarrow> byte) \<Rightarrow> (byte \<Rightarrow> byte)" where
  "apply_entries [] d = d"
| "apply_entries (c # cs) d =
     apply_entries cs (d(reg_addr (reg c) := target c (d (reg_addr (reg c)))))"

subsection \<open>The validator\<close>

lemma check_value_bitwise:
  "check_value c v \<longleftrightarrow> v AND set_bits c = set_bits c \<and> v AND clear_bits c = 0"
  by (auto simp: check_value_def Let_def)

lemma RegisterCheck_eq:
  "RegisterCheck c b =
     (check_value c (if fault_now b then 0 else dev b (reg_addr (reg c))),
      b\<lparr>faults := tl (faults b), trace := Transfer [reg_addr (reg c)] 1 # trace b\<rparr>)"
  by (simp add: RegisterCheck_def RegisterRead_eq)

declare RegisterCheck_eq [drv_defs]

lemma RegisterCheck_reliable [intro]: "reliable b \<Longrightarrow> reliable (snd (RegisterCheck c b))"
  by (simp add: RegisterCheck_eq reliable_def)

lemma check_value_target: "check_value c (target c v) \<longleftrightarrow> entry_wf c"
  by (simp add: check_value_bitwise target_def entry_wf_def set_clear_clear_iff)

subsection \<open>The apply loop refines \<open>apply_entries\<close>\<close>

lemma configure_apply_refines:
  "reliable b \<Longrightarrow> dev (configure_apply cs b) = apply_entries cs (dev b)"
proof (induction cs arbitrary: b)
  case Nil
  then show ?case by simp
next
  case (Cons c cs)
  let ?b' = "RegisterSetAndClearBits (reg c) (set_bits c) (clear_bits c) b"
  have "reliable ?b'"
    using Cons.prems by (rule RegisterSetAndClearBits_reliable)
  then have "dev (configure_apply cs ?b') = apply_entries cs (dev ?b')"
    by (rule Cons.IH)
  moreover have "dev ?b' = (dev b)(reg_addr (reg c) := target c (dev b (reg_addr (reg c))))"
    using Cons.prems by (simp add: RegisterSetAndClearBits_dev target_def)
  ultimately show ?case by simp
qed

lemma configure_apply_reliable [intro]: "reliable b \<Longrightarrow> reliable (configure_apply cs b)"
  by (induction cs arbitrary: b) auto

lemma apply_entries_other:
  "a \<notin> reg_addr ` reg ` set cs \<Longrightarrow> apply_entries cs d a = d a"
  by (induction cs arbitrary: d) auto

lemma apply_entries_at:
  assumes "distinct (map reg cs)" and "c \<in> set cs"
  shows "apply_entries cs d (reg_addr (reg c)) = target c (d (reg_addr (reg c)))"
  using assms
proof (induction cs arbitrary: d)
  case Nil
  then show ?case by simp
next
  case (Cons c0 cs)
  show ?case
  proof (cases "c = c0")
    case True
    with Cons.prems have "reg_addr (reg c) \<notin> reg_addr ` reg ` set cs"
      by (auto simp: reg_addr_inj)
    with True show ?thesis by (simp add: apply_entries_other)
  next
    case False
    from Cons.prems False have c_in: "c \<in> set cs"
      by simp
    from Cons.prems c_in have ne: "reg c \<noteq> reg c0"
      by (metis distinct.simps(2) image_eqI list.set_map list.simps(9))
    from Cons.prems have "distinct (map reg cs)"
      by simp
    then have "apply_entries cs d' (reg_addr (reg c)) = target c (d' (reg_addr (reg c)))" for d'
      using c_in by (rule Cons.IH)
    with ne show ?thesis by (simp add: reg_addr_inj)
  qed
qed

lemma target_idem [simp]: "target c (target c v) = target c v"
  by (simp add: target_def)

lemma configure_apply_fixed:
  assumes "reliable b" and "\<forall>c\<in>set cs. target c (dev b (reg_addr (reg c))) = dev b (reg_addr (reg c))"
  shows "dev (configure_apply cs b) = dev b \<and> writes (trace (configure_apply cs b)) = writes (trace b)"
  using assms
proof (induction cs arbitrary: b)
  case Nil
  then show ?case by simp
next
  case (Cons c cs)
  let ?b' = "RegisterSetAndClearBits (reg c) (set_bits c) (clear_bits c) b"
  from Cons.prems have eff: "dev ?b' = dev b" "writes (trace ?b') = writes (trace b)"
    by (simp_all add: RegisterSetAndClearBits_dev RegisterSetAndClearBits_writes target_def)
  from Cons.prems have "reliable ?b'"
    by (intro RegisterSetAndClearBits_reliable)
  with Cons.prems eff have "dev (configure_apply cs ?b') = dev ?b'
      \<and> writes (trace (configure_apply cs ?b')) = writes (trace ?b')"
    by (intro Cons.IH) simp_all
  with eff show ?case by simp
qed

subsection \<open>The check loop\<close>

lemma configure_check_reliable:
  "reliable b \<Longrightarrow>
   configure_check cs success b =
     (success \<and> list_all (\<lambda>c. check_value c (dev b (reg_addr (reg c)))) cs,
      b\<lparr>faults := drop (length cs) (faults b),
        trace := rev (map (\<lambda>c. Transfer [reg_addr (reg c)] 1) cs) @ trace b\<rparr>)"
proof (induction cs arbitrary: success b)
  case Nil
  then show ?case by simp
next
  case (Cons c cs)
  have "reliable (snd (RegisterCheck c b))"
    using Cons.prems by (rule RegisterCheck_reliable)
  with Cons show ?case
    by (simp add: RegisterCheck_eq reliable_fault_now drop_Suc)
qed

lemma configure_apply_reaches_target:
  assumes "reliable b" and "distinct (map reg cs)" and "c \<in> set cs"
  shows "dev (configure_apply cs b) (reg_addr (reg c)) = target c (dev b (reg_addr (reg c)))"
  using assms by (simp add: configure_apply_refines apply_entries_at)

lemma configure_check_apply:
  assumes "reliable b" and "distinct (map reg cs)"
  shows "fst (configure_check cs True (configure_apply cs b)) \<longleftrightarrow> list_all entry_wf cs"
proof -
  have "reliable (configure_apply cs b)"
    using assms(1) by (rule configure_apply_reliable)
  then have "fst (configure_check cs True (configure_apply cs b)) \<longleftrightarrow>
      list_all (\<lambda>c. check_value c (dev (configure_apply cs b) (reg_addr (reg c)))) cs"
    by (simp add: configure_check_reliable)
  also have "\<dots> \<longleftrightarrow> list_all entry_wf cs"
    using assms by (auto simp: list_all_iff configure_apply_reaches_target check_value_target)
  finally show ?thesis .
qed

text \<open>
  C13: on a working bus, with each register listed once, the check pass of
  \<open>Configure\<close> succeeds after the apply pass exactly when no entry both sets and clears
  a bit; an ill-formed table can never be validated.
\<close>

theorem configure_succeeds_iff:
  assumes "reliable b" and "distinct (map reg cs)"
  shows "fst (configure_check cs True (configure_apply cs b)) \<longleftrightarrow> list_all entry_wf cs"
  using assms by (rule configure_check_apply)

text \<open>
  C14: applying the table a second time, with no register changed in between, issues no
  write: every register already holds the value its entry asks for.
\<close>

theorem configure_apply_idempotent:
  assumes "reliable b" and "distinct (map reg cs)"
  shows "writes (trace (configure_apply cs (configure_apply cs b))) = writes (trace (configure_apply cs b))"
proof -
  let ?b1 = "configure_apply cs b"
  have "reliable ?b1"
    using assms(1) by (rule configure_apply_reliable)
  moreover have "\<forall>c\<in>set cs. target c (dev ?b1 (reg_addr (reg c))) = dev ?b1 (reg_addr (reg c))"
    using assms by (simp add: configure_apply_reaches_target)
  ultimately show ?thesis
    by (simp add: configure_apply_fixed)
qed

lemma configure_apply_down:
  "down (2 * length cs + n) b \<Longrightarrow> down n (configure_apply cs b) \<and> dev (configure_apply cs b) = dev b"
proof (induction cs arbitrary: b)
  case Nil
  then show ?case by simp
next
  case (Cons c cs)
  let ?b' = "RegisterSetAndClearBits (reg c) (set_bits c) (clear_bits c) b"
  from Cons.prems have "down (Suc (Suc (2 * length cs + n))) b"
    by simp
  then have "down (2 * length cs + n) ?b'" "dev ?b' = dev b"
    by (simp_all add: RegisterSetAndClearBits_down)
  with Cons.IH show ?case by simp
qed

lemma configure_check_down:
  "down (length cs + n) b \<Longrightarrow>
   fst (configure_check cs success b) = (success \<and> list_all (\<lambda>c. check_value c 0) cs)"
proof (induction cs arbitrary: success b)
  case Nil
  then show ?case by simp
next
  case (Cons c cs)
  from Cons.prems have d: "down (Suc (length cs + n)) b"
    by simp
  then have "RegisterCheck c b =
      (check_value c 0, b\<lparr>faults := tl (faults b), trace := Transfer [reg_addr (reg c)] 1 # trace b\<rparr>)"
    by (simp add: RegisterCheck_eq down_fault_now)
  with d Cons.IH show ?case
    by (simp add: down_tl)
qed

theorem configure_succeeds_iff_witness:
  "reliable quiet_bus \<and> distinct (map reg register_cfg)
   \<and> fst (configure_check register_cfg True (configure_apply register_cfg quiet_bus))"
proof -
  have h: "reliable quiet_bus" "distinct (map reg register_cfg)"
    by (simp_all add: reliable_def quiet_bus_def register_cfg_def)
  show ?thesis
    using configure_succeeds_iff [OF h] h
    by (simp add: register_cfg_def entry_wf_def bit_constants)
qed

theorem configure_apply_idempotent_witness:
  "reliable quiet_bus \<and> distinct (map reg register_cfg)
   \<and> writes (trace (configure_apply register_cfg (configure_apply register_cfg quiet_bus))) = 2"
proof -
  have h: "reliable quiet_bus" "distinct (map reg register_cfg)"
    by (simp_all add: reliable_def quiet_bus_def register_cfg_def)
  have "writes (trace (configure_apply register_cfg quiet_bus)) = 2"
    by (simp add: register_cfg_def quiet_bus_def RegisterSetAndClearBits_def RegisterRead_eq
        RegisterWrite_eq fault_now_def bit_constants writes_def)
  then show ?thesis
    using configure_apply_idempotent [OF h] h by simp
qed

text \<open>
  C16: \<open>RegisterCheck\<close> reads the register once and answers the specification's bitwise
  check (section 4.2): every bit of \<open>set_bits\<close> present and every bit of
  \<open>clear_bits\<close> absent. A failed read is checked as the value \<open>0\<close>.
\<close>

theorem RegisterCheck_bitwise:
  "RegisterCheck c b =
     (let v = (if fault_now b then 0 else dev b (reg_addr (reg c)))
      in (v AND set_bits c = set_bits c \<and> v AND clear_bits c = 0,
          b\<lparr>faults := tl (faults b), trace := Transfer [reg_addr (reg c)] 1 # trace b\<rparr>))"
  by (simp add: RegisterCheck_eq check_value_bitwise Let_def)

text \<open>
  C28: what the validator accepts for \<open>CNTL1\<close>. The entry sets \<open>0x05\<close> (continuous
  mode, 50 Hz) and clears \<open>0xF0\<close> (range and oversampling), but neither sets nor
  clears bit 1 (high bit of the mode field) or bit 3 (high bit of the output-rate
  field). The check therefore passes for exactly four values. Among them are \<open>0x0D\<close>
  (200 Hz output rate) and \<open>0x07\<close> (a reserved mode), so a drift of \<open>CNTL1\<close> to either
  goes undetected.
\<close>

theorem CNTL1_check_accepts:
  "check_value (register_cfg ! 0) v \<longleftrightarrow> v \<in> {0x05, 0x07, 0x0D, 0x0F}"
proof
  assume "check_value (register_cfg ! 0) v"
  then have a: "v AND 0x05 = 0x05" and b: "v AND 0xF0 = 0"
    by (simp_all add: check_value_bitwise register_cfg_def bit_constants)
  have eq: "bit v n \<longleftrightarrow> bit (0x05 OR (if bit v 1 then 2 else 0) OR (if bit v 3 then 8 else 0) :: byte) n" for n
  proof -
    consider "n = 0" | "n = 1" | "n = 2" | "n = 3" | "n = 4" | "n = 5" | "n = 6" | "n = 7" | "7 < n"
      by linarith
    then show ?thesis
      using bits_of_mask [OF a, of n] bits_of_mask [OF b, of n] bit_imp_le_length [of v n]
      by cases (auto simp: bit_simps)
  qed
  then have "v = 0x05 OR (if bit v 1 then 2 else 0) OR (if bit v 3 then 8 else 0)"
    by (rule bit_word_eqI)
  then show "v \<in> {0x05, 0x07, 0x0D, 0x0F}"
    by (simp split: if_splits)
next
  assume "v \<in> {0x05, 0x07, 0x0D, 0x0F}"
  then show "check_value (register_cfg ! 0) v"
    by (auto simp: check_value_bitwise register_cfg_def bit_constants)
qed

end
