(* ===== verification/Decode.thy ===== *)
theory Decode
  imports Registers
begin

text \<open>
  The Sample Decoder of the \<open>READ\<close> state of \<open>QMC5883L::RunImpl\<close>: the
  \<open>TransferBuffer\<close> layout of the seven bytes read in one transfer (lines 154--162),
  \<open>combine\<close> (lines 38--41), the guard that decides whether a sample is published
  (line 178), the axis remap with saturating negation (lines 179--188) and the
  temperature conversion (lines 220--223). The scale \<open>1/12000\<close> that \<open>Configure\<close> hands
  to the publisher is applied by \<open>PX4Magnetometer\<close> (outside \<open>src/\<close>), modelled by
  \<open>scaled\<close>.
\<close>

unbundle bit_operations_syntax

text \<open>
  \<open>combine\<close> computes \<open>(msb << 8u) | lsb\<close> in \<open>int\<close>, a value in \<open>[0, 65535]\<close>,
  and converts it to \<open>int16_t\<close>, which keeps the low 16 bits.
\<close>

definition combine :: "byte \<Rightarrow> byte \<Rightarrow> int16" where
  "combine msb lsb = word_of_int (push_bit 8 (uint msb) OR uint lsb)"

record TransferBuffer =
  tb_X_LSB :: byte
  tb_X_MSB :: byte
  tb_Y_LSB :: byte
  tb_Y_MSB :: byte
  tb_Z_LSB :: byte
  tb_Z_MSB :: byte
  tb_STATUS :: byte

text \<open>The struct read from the bytes of the transfer, in declaration order.\<close>

definition buffer_of :: "byte list \<Rightarrow> TransferBuffer" where
  "buffer_of bs =
     \<lparr>tb_X_LSB = bs ! 0, tb_X_MSB = bs ! 1, tb_Y_LSB = bs ! 2, tb_Y_MSB = bs ! 3,
      tb_Z_LSB = bs ! 4, tb_Z_MSB = bs ! 5, tb_STATUS = bs ! 6\<rparr>"

text \<open>
  Line 178 as written:
  \<^verbatim>\<open>!failure && (buffer.STATUS && STATUS_BIT::DRDY) && (buffer.STATUS && STATUS_BIT::OVL == 0)\<close>.
  Both \<open>&&\<close> are logical, and \<open>==\<close> binds tighter than \<open>&&\<close>, so the last conjunct
  is \<open>buffer.STATUS != 0 && (OVL == 0)\<close>.
\<close>

definition sample_guard :: "bool \<Rightarrow> byte \<Rightarrow> bool" where
  "sample_guard failure status \<longleftrightarrow>
     \<not> failure \<and> (status \<noteq> 0 \<and> STATUS_BIT_DRDY \<noteq> 0) \<and> (status \<noteq> 0 \<and> STATUS_BIT_OVL = 0)"

text \<open>\<open>x = (x == INT16_MIN) ? INT16_MAX : -x\<close>; \<open>-x\<close> is computed in \<open>int\<close>.\<close>

definition neg_sat :: "int16 \<Rightarrow> int16" where
  "neg_sat x = (if sint x = -32768 then word_of_int 32767 else word_of_int (- sint x))"

definition orient :: "TransferBuffer \<Rightarrow> int16 \<times> int16 \<times> int16" where
  "orient buffer =
     (let x = combine (tb_X_MSB buffer) (tb_X_LSB buffer);
          y = combine (tb_Y_MSB buffer) (tb_Y_LSB buffer);
          z = combine (tb_Z_MSB buffer) (tb_Z_LSB buffer);
          x = neg_sat x;
          z = neg_sat z
      in (x, y, z))"

definition temperature_C :: "byte \<Rightarrow> byte \<Rightarrow> real" where
  "temperature_C tout_msb tout_lsb = real_of_int (sint (combine tout_msb tout_lsb)) / 100"

text \<open>
  The specification's reading of the status byte (section 4.3, design note): data ready
  bit set and overflow bit clear, by bitwise masking.
\<close>

definition data_ready :: "byte \<Rightarrow> bool" where
  "data_ready status \<longleftrightarrow> status AND STATUS_BIT_DRDY \<noteq> 0 \<and> status AND STATUS_BIT_OVL = 0"

definition scaled :: "int16 \<Rightarrow> real" where
  "scaled v = real_of_int (sint v) / 12000"

text \<open>
  The Sample Decoder of the specification (section 4.3) on integers, as an abstract
  reference for the word-level pipeline. Each axis is \<open>(msb << 8) | lsb\<close> read as a
  16-bit two's-complement number; X and Z are negated, with \<open>INT16_MIN\<close> saturating
  to \<open>INT16_MAX\<close>. The sample is taken when the data-ready bit is set and the
  overflow bit is clear, and every component is scaled by \<open>1/12000\<close>. The seven bytes
  come in wire order: X, Y, Z low byte first, then the status byte.
\<close>

definition spec_axis :: "byte \<Rightarrow> byte \<Rightarrow> int" where
  "spec_axis lsb msb = (let v = 256 * uint msb + uint lsb in if v < 32768 then v else v - 65536)"

definition spec_flip :: "int \<Rightarrow> int" where
  "spec_flip r = (if r = -32768 then 32767 else - r)"

definition spec_decode :: "byte list \<Rightarrow> (real \<times> real \<times> real) option" where
  "spec_decode raw =
     (if raw ! 6 AND STATUS_BIT_DRDY \<noteq> 0 \<and> raw ! 6 AND STATUS_BIT_OVL = 0
      then Some (real_of_int (spec_flip (spec_axis (raw ! 0) (raw ! 1))) / 12000,
                 real_of_int (spec_axis (raw ! 2) (raw ! 3)) / 12000,
                 real_of_int (spec_flip (spec_axis (raw ! 4) (raw ! 5))) / 12000)
      else None)"

subsection \<open>Byte assembly\<close>

lemma combine_word: "combine msb lsb = push_bit 8 (ucast msb) OR ucast lsb"
  unfolding combine_def
  by (rule bit_word_eqI) (auto simp: bit_simps)

lemma or_shift_byte: "push_bit 8 (uint (msb :: byte)) OR uint (lsb :: byte) = 256 * uint msb + uint lsb"
proof -
  have "push_bit 8 (uint msb) + uint lsb = push_bit 8 (uint msb) OR uint lsb"
    by (rule disjunctive_add) (auto simp: bit_simps dest: bit_imp_le_length)
  then show ?thesis by (simp add: push_bit_eq_mult)
qed

lemma uint_combine: "uint (combine msb lsb) = 256 * uint msb + uint lsb"
proof -
  have "256 * uint msb + uint lsb < 2 ^ 16"
    using uint_lt2p [of msb] uint_lt2p [of lsb] by simp
  then show ?thesis
    unfolding combine_def or_shift_byte uint_word_of_int_eq
    by (simp add: take_bit_int_eq_self)
qed

lemma sint_int16: "sint (w :: int16) = (if uint w < 32768 then uint w else uint w - 65536)"
proof -
  have b: "0 \<le> uint w" "uint w < 65536"
    using uint_lt2p [of w] by simp_all
  have "sint w = signed_take_bit 15 (uint w)"
    by (simp add: sint_uint)
  also have "\<dots> = take_bit 16 (uint w) - (if bit (uint w) 15 then 65536 else 0)"
    by (simp add: signed_take_bit_eq_take_bit_minus)
  also have "take_bit 16 (uint w) = uint w"
    using b by (simp add: take_bit_int_eq_self)
  also have "bit (uint w) 15 \<longleftrightarrow> odd (uint w div 32768)"
    by (simp add: bit_iff_odd)
  also have "uint w div 32768 = (if uint w < 32768 then 0 else 1)"
    using b by auto
  finally show ?thesis by auto
qed

lemma sint_neg_sat: "sint (neg_sat x) = (if sint x = -32768 then 32767 else - sint x)"
  using sint_ge [of x] sint_lt [of x]
  by (auto simp: neg_sat_def sint_word_minus signed_take_bit_int_eq_self)

lemma sint_combine:
  "sint (combine msb lsb) =
     (if uint msb < 128 then 256 * uint msb + uint lsb else 256 * uint msb + uint lsb - 65536)"
proof -
  have "uint lsb < 256" "0 \<le> uint lsb"
    using uint_lt2p [of lsb] by simp_all
  then have "256 * uint msb + uint lsb < 32768 \<longleftrightarrow> uint msb < 128"
    by arith
  then show ?thesis by (simp add: sint_int16 uint_combine)
qed

lemma combine_msb: "ucast (drop_bit 8 (combine msb lsb)) = msb"
  unfolding combine_word
  by (rule bit_word_eqI) (auto simp: bit_simps dest: bit_imp_le_length)

lemma combine_lsb: "ucast (combine msb lsb) = lsb"
  unfolding combine_word
  by (rule bit_word_eqI) (auto simp: bit_simps)

lemma combine_split: "combine (ucast (drop_bit 8 w)) (ucast w) = w"
  unfolding combine_word
  by (rule bit_word_eqI) (auto simp: bit_simps)

text \<open>
  C20: Round trip of the wire format: \<open>combine\<close> loses nothing. The high and low bytes of
  the assembled value are the bytes it was assembled from, and every 16-bit value is
  assembled from its own two bytes.
\<close>

theorem combine_roundtrip:
  "ucast (drop_bit 8 (combine msb lsb)) = msb \<and> ucast (combine msb lsb) = lsb
   \<and> combine (ucast (drop_bit 8 w)) (ucast w) = w"
  by (simp add: combine_msb combine_lsb combine_split)

text \<open>
  C19: The axis remap (specification, section 4.3 and the first two testable properties):
  the X and Z outputs are the negated raw values, except that the negation of
  \<open>INT16_MIN\<close> saturates to \<open>INT16_MAX\<close>; the Y output is the raw value.
\<close>

theorem orient_axes:
  "sint (fst (orient buffer)) = (let r = sint (combine (tb_X_MSB buffer) (tb_X_LSB buffer))
               in if r = -32768 then 32767 else - r)
   \<and> sint (fst (snd (orient buffer))) = sint (combine (tb_Y_MSB buffer) (tb_Y_LSB buffer))
   \<and> sint (snd (snd (orient buffer))) = (let r = sint (combine (tb_Z_MSB buffer) (tb_Z_LSB buffer))
               in if r = -32768 then 32767 else - r)"
  by (auto simp: orient_def sint_neg_sat Let_def)

text \<open>
  The guard of line 178 never holds: its last conjunct compares the constant
  \<open>STATUS_BIT::OVL\<close> (bit 1, non-zero) with \<open>0\<close>. Whatever the transfer and the status
  byte, the decode branch is dead code.
\<close>

theorem sample_guard_never: "\<not> sample_guard failure status"
  by (simp add: sample_guard_def STATUS_BIT_OVL_def)

lemma sint_combine_spec: "sint (combine msb lsb) = spec_axis lsb msb"
  by (simp add: spec_axis_def sint_int16 uint_combine Let_def)

text \<open>
  C32: the word-level decoder refines the specification's integer decoder. On every
  seven-byte transfer, the code's pipeline gives exactly the specification's sample:
  the buffer layout of lines 154--162, \<open>combine\<close>, the saturating remap of lines
  187--188 and the publisher's scale, guarded by the bitwise reading of the status byte
  that the specification asks for. The code's own guard (line 178) is not that
  reading (see \<open>sample_guard_never\<close>).
\<close>

theorem decoder_refines_spec:
  "(if data_ready (tb_STATUS (buffer_of raw))
    then Some (let (x, y, z) = orient (buffer_of raw) in (scaled x, scaled y, scaled z))
    else None) = spec_decode raw"
  by (simp add: spec_decode_def data_ready_def buffer_of_def orient_def scaled_def sint_neg_sat
      sint_combine_spec spec_flip_def Let_def del: of_int_sint)

end
