(* ===== verification/Lifecycle.thy ===== *)
theory Lifecycle
  imports Config Decode
begin

text \<open>
  The Lifecycle State Machine: the members of class \<open>QMC5883L\<close> that \<open>RunImpl\<close>
  reads and writes, \<open>Reset\<close>, \<open>Configure\<close> and one definition per case of the
  \<open>switch\<close> in \<open>RunImpl\<close> (\<open>QMC5883L.cpp\<close> lines 70--76 and 97--256).

  Two collaborators live outside \<open>src/\<close> and are modelled from the specification:
  the work-item scheduler (\<open>ScheduleDelayed\<close>, \<open>ScheduleOnInterval\<close>,
  \<open>ScheduleClear\<close>, \<open>ScheduleNow\<close>), whose state is the \<open>work\<close> field, and the
  measurement publisher \<open>PX4Magnetometer\<close>, whose observable outputs are the \<open>px4_mag\<close>
  field. A step runs at one clock reading \<open>now\<close>: the source reads the clock once for
  \<open>timestamp_sample\<close> and again inside \<open>hrt_elapsed_time\<close>, a few microseconds apart;
  the model uses one reading for both.
\<close>

unbundle bit_operations_syntax

datatype STATE = RESET | WAIT_FOR_RESET | CONFIGURE | READ

text \<open>
  The work item: no run pending, one run due at an absolute time, or runs every
  \<open>interval\<close> microseconds with the next one due at the given time.
\<close>

datatype work = Cleared | Delayed hrt_abstime | Interval nat hrt_abstime

record mag_pub =
  mag_samples :: "(hrt_abstime \<times> int16 \<times> int16 \<times> int16) list"
  mag_scale :: real
  mag_temperatures :: "(hrt_abstime \<times> real) list"
  mag_external :: bool
  mag_rotation :: nat

record QMC5883L =
  state :: STATE
  reset_timestamp :: hrt_abstime
  last_config_check_timestamp :: hrt_abstime
  temperature_update_timestamp :: hrt_abstime
  consecutive_failures :: int
  checked_register :: nat
  px4_mag :: mag_pub
  work :: work
  transfer_perf :: nat
  bad_register_perf :: nat
  bad_transfer_perf :: nat

subsection \<open>Scheduler and publisher interfaces\<close>

definition ScheduleDelayed :: "nat \<Rightarrow> hrt_abstime \<Rightarrow> QMC5883L \<Rightarrow> QMC5883L" where
  "ScheduleDelayed delay now s = s\<lparr>work := Delayed (now + delay)\<rparr>"

definition ScheduleOnInterval :: "nat \<Rightarrow> nat \<Rightarrow> hrt_abstime \<Rightarrow> QMC5883L \<Rightarrow> QMC5883L" where
  "ScheduleOnInterval interval delay now s = s\<lparr>work := Interval interval (now + delay)\<rparr>"

definition ScheduleClear :: "QMC5883L \<Rightarrow> QMC5883L" where
  "ScheduleClear s = s\<lparr>work := Cleared\<rparr>"

definition ScheduleNow :: "hrt_abstime \<Rightarrow> QMC5883L \<Rightarrow> QMC5883L" where
  "ScheduleNow now s = s\<lparr>work := Delayed now\<rparr>"

definition mag_update :: "hrt_abstime \<Rightarrow> int16 \<Rightarrow> int16 \<Rightarrow> int16 \<Rightarrow> mag_pub \<Rightarrow> mag_pub" where
  "mag_update t x y z m = m\<lparr>mag_samples := (t, x, y, z) # mag_samples m\<rparr>"

definition set_scale :: "real \<Rightarrow> mag_pub \<Rightarrow> mag_pub" where
  "set_scale sc m = m\<lparr>mag_scale := sc\<rparr>"

definition set_temperature :: "hrt_abstime \<Rightarrow> real \<Rightarrow> mag_pub \<Rightarrow> mag_pub" where
  "set_temperature t v m = m\<lparr>mag_temperatures := (t, v) # mag_temperatures m\<rparr>"

text \<open>
  The Diagnostics Sink (\<open>perf_counter\<close>, outside \<open>src/\<close>): a counter is modelled by
  its event count. \<open>perf_count\<close> adds one event; a \<open>perf_begin\<close>/\<open>perf_end\<close> pair
  measures one interval and counts it as one event (the durations are not modelled).
\<close>

definition perf_count :: "nat \<Rightarrow> nat" where
  "perf_count c = c + 1"

subsection \<open>The driver\<close>

text \<open>
  The constructor: the members take their initial values (\<open>QMC5883L.hpp\<close>), the
  publisher is created with the rotation and told whether the bus is external. The
  bus number, frequency and work-queue wiring go to the base classes and are not
  modelled.
\<close>

definition QMC5883L_new :: "bool \<Rightarrow> nat \<Rightarrow> QMC5883L" where
  "QMC5883L_new external rotation =
     \<lparr>state = RESET, reset_timestamp = 0, last_config_check_timestamp = 0,
      temperature_update_timestamp = 0, consecutive_failures = 0, checked_register = 0,
      px4_mag = \<lparr>mag_samples = [], mag_scale = 1, mag_temperatures = [],
                 mag_external = external, mag_rotation = rotation\<rparr>,
      work = Cleared, transfer_perf = 0, bad_register_perf = 0, bad_transfer_perf = 0\<rparr>"

text \<open>\<open>Reset\<close> always returns \<open>true\<close>, so the model returns the state only.\<close>

definition Reset :: "hrt_abstime \<Rightarrow> QMC5883L \<Rightarrow> QMC5883L" where
  "Reset now s = ScheduleNow now (ScheduleClear (s\<lparr>state := RESET\<rparr>))"

text \<open>
  \<open>init\<close> takes the status code of the base-class \<open>I2C::init\<close>: an error is returned
  unchanged and nothing is scheduled; otherwise \<open>Reset\<close> (which returns \<open>true\<close>)
  makes \<open>init\<close> return \<open>0\<close>.
\<close>

definition init :: "int \<Rightarrow> hrt_abstime \<Rightarrow> QMC5883L \<Rightarrow> int \<times> QMC5883L" where
  "init ret now s = (if ret \<noteq> PX4_OK then (ret, s) else (0, Reset now s))"

text \<open>The driver after a successful start at time \<open>now\<close>: internal bus, no rotation.\<close>

definition booted :: "hrt_abstime \<Rightarrow> QMC5883L" where
  "booted now = snd (init PX4_OK now (QMC5883L_new False 0))"

definition run_reset :: "hrt_abstime \<Rightarrow> QMC5883L \<Rightarrow> bus \<Rightarrow> QMC5883L \<times> bus" where
  "run_reset now s b =
     (let b = RegisterWrite CNTL2 CNTL2_BIT_SOFT_RST b;
          s = s\<lparr>reset_timestamp := now, consecutive_failures := 0, state := WAIT_FOR_RESET\<rparr>
      in (ScheduleDelayed (ms 100) now s, b))"

definition run_wait_for_reset :: "hrt_abstime \<Rightarrow> QMC5883L \<Rightarrow> bus \<Rightarrow> QMC5883L \<times> bus" where
  "run_wait_for_reset now s b =
     (let (v, b) = RegisterRead CNTL2 b
      in if v AND CNTL2_BIT_SOFT_RST = 0 then (ScheduleDelayed (ms 1) now (s\<lparr>state := CONFIGURE\<rparr>), b)
         else if now - reset_timestamp s > ms 1000
         then (ScheduleDelayed (ms 100) now (s\<lparr>state := RESET\<rparr>), b)
         else (ScheduleDelayed (ms 100) now s, b))"

definition Configure :: "register_config_t list \<Rightarrow> QMC5883L \<Rightarrow> bus \<Rightarrow> bool \<times> QMC5883L \<times> bus" where
  "Configure cfg s b =
     (let b = configure_apply cfg b;
          (success, b) = configure_check cfg True b;
          s = s\<lparr>px4_mag := set_scale (1 / 12000) (px4_mag s)\<rparr>
      in (success, s, b))"

definition run_configure ::
  "register_config_t list \<Rightarrow> hrt_abstime \<Rightarrow> QMC5883L \<Rightarrow> bus \<Rightarrow> QMC5883L \<times> bus" where
  "run_configure cfg now s b =
     (let (ok, s, b) = Configure cfg s b
      in if ok then (ScheduleOnInterval (ms 20) (ms 20) now (s\<lparr>state := READ\<rparr>), b)
         else if now - reset_timestamp s > ms 1000
         then (ScheduleDelayed (ms 100) now (s\<lparr>state := RESET\<rparr>), b)
         else (ScheduleDelayed (ms 100) now s, b))"

text \<open>
  The \<open>READ\<close> case in four parts: the sample transfer and its decode (lines 154--193,
  returning whether the transfer failed), the temperature update (lines 210--225), the
  failure threshold (lines 228--230), and the maintenance that ties them together.
\<close>

definition read_sample :: "hrt_abstime \<Rightarrow> QMC5883L \<Rightarrow> bus \<Rightarrow> bool \<times> QMC5883L \<times> bus" where
  "read_sample now s b =
     (let (ok, bytes, b) = transfer [reg_addr X_LSB] 7 b;
          failure = \<not> ok;
          s = s\<lparr>bad_transfer_perf := (if failure then perf_count (bad_transfer_perf s) else bad_transfer_perf s)\<rparr>;
          s = s\<lparr>transfer_perf := perf_count (transfer_perf s)\<rparr>;
          buffer = buffer_of bytes
      in if sample_guard failure (tb_STATUS buffer)
         then (let (x, y, z) = orient buffer
               in (failure, s\<lparr>px4_mag := mag_update now x y z (px4_mag s), consecutive_failures := 0\<rparr>, b))
         else (failure, s, b))"

definition read_temperature :: "hrt_abstime \<Rightarrow> QMC5883L \<Rightarrow> bus \<Rightarrow> QMC5883L \<times> bus" where
  "read_temperature now s b =
     (let s = s\<lparr>temperature_update_timestamp := now\<rparr>;
          (ok, bytes, b) = transfer [reg_addr TEMP_LSB] 2 b
      in if ok
         then (s\<lparr>px4_mag := set_temperature now (temperature_C (bytes ! 1) (bytes ! 0)) (px4_mag s)\<rparr>, b)
         else (s, b))"

definition failure_threshold :: "hrt_abstime \<Rightarrow> QMC5883L \<Rightarrow> QMC5883L" where
  "failure_threshold now s = (if consecutive_failures s > 10 then Reset now s else s)"

text \<open>\<open>(_checked_register + 1) % size_register_cfg\<close> (line 199).\<close>

definition next_checked :: "register_config_t list \<Rightarrow> nat \<Rightarrow> nat" where
  "next_checked cfg i = (i + 1) mod length cfg"

definition run_read ::
  "register_config_t list \<Rightarrow> hrt_abstime \<Rightarrow> QMC5883L \<Rightarrow> bus \<Rightarrow> QMC5883L \<times> bus" where
  "run_read cfg now s b =
     (let (failure, s, b) = read_sample now s b
      in if failure \<or> now - last_config_check_timestamp s > ms 100
         then (let (ok, b) = RegisterCheck (cfg ! checked_register s) b
               in if ok
                  then (failure_threshold now
                          (s\<lparr>last_config_check_timestamp := now,
                             checked_register := next_checked cfg (checked_register s)\<rparr>), b)
                  else (Reset now (s\<lparr>bad_register_perf := perf_count (bad_register_perf s)\<rparr>), b))
         else if now - temperature_update_timestamp s > seconds 1
         then (let (s, b) = read_temperature now s b in (failure_threshold now s, b))
         else (failure_threshold now s, b))"

definition RunImpl ::
  "register_config_t list \<Rightarrow> hrt_abstime \<Rightarrow> QMC5883L \<Rightarrow> bus \<Rightarrow> QMC5883L \<times> bus" where
  "RunImpl cfg now s b =
     (case state s of
        RESET \<Rightarrow> run_reset now s b
      | WAIT_FOR_RESET \<Rightarrow> run_wait_for_reset now s b
      | CONFIGURE \<Rightarrow> run_configure cfg now s b
      | READ \<Rightarrow> run_read cfg now s b)"

lemmas schedule_defs = ScheduleDelayed_def ScheduleOnInterval_def ScheduleClear_def ScheduleNow_def
lemmas publisher_defs = mag_update_def set_scale_def set_temperature_def

declare Reset_def [drv_defs] run_reset_def [drv_defs] run_wait_for_reset_def [drv_defs]
  Configure_def [drv_defs] run_configure_def [drv_defs] read_temperature_def [drv_defs]
  failure_threshold_def [drv_defs]

text \<open>
  The schedule a step leaves: a recurring 20 ms interval exactly in \<open>READ\<close>, a single
  pending run in every other state. \<open>sched_pre\<close> is what a step needs of its input.
\<close>

definition sched_ok :: "QMC5883L \<Rightarrow> bool" where
  "sched_ok s \<longleftrightarrow>
     (if state s = READ then \<exists>t. work s = Interval (ms 20) t else \<exists>t. work s = Delayed t)"

definition sched_pre :: "QMC5883L \<Rightarrow> bool" where
  "sched_pre s \<longleftrightarrow> (state s = READ \<longrightarrow> (\<exists>t. work s = Interval (ms 20) t))"

text \<open>A driver waiting for its reset, started at time 0, used by the examples.\<close>

definition wait_example :: QMC5883L where
  "wait_example = (booted 0)\<lparr>state := WAIT_FOR_RESET, work := Cleared\<rparr>"

definition read_example :: QMC5883L where
  "read_example = wait_example\<lparr>state := READ, work := Interval (ms 20) (ms 40)\<rparr>"

text \<open>
  The bring-up phase (\<open>WAIT_FOR_RESET\<close> and \<open>CONFIGURE\<close>) and the order in which
  its runs move down once the 1000 ms budget is spent.
\<close>

definition in_bring_up :: "STATE \<Rightarrow> bool" where
  "in_bring_up st \<longleftrightarrow> st = WAIT_FOR_RESET \<or> st = CONFIGURE"

fun bring_up_rank :: "STATE \<Rightarrow> nat" where
  "bring_up_rank WAIT_FOR_RESET = 2"
| "bring_up_rank CONFIGURE = 1"
| "bring_up_rank RESET = 0"
| "bring_up_rank READ = 0"

subsection \<open>One step of each state\<close>

text \<open>Since the guard of line 178 never holds, the sample transfer changes only the bus.\<close>

lemmas step_simps = drv_defs schedule_defs publisher_defs run_read_def read_sample_def next_checked_def
  perf_count_def transfer_read sample_guard_never Let_def

text \<open>
  Frame facts of one step, used by the invariants of the system theory. No step
  publishes a magnetic sample (the decode branch of \<open>READ\<close> is dead); the failure
  counter is only cleared, on entry to \<open>RESET\<close>.
\<close>

lemma RunImpl_never_publishes:
  "mag_samples (px4_mag (fst (RunImpl cfg now s b))) = mag_samples (px4_mag s)"
  by (cases "state s")
     (auto simp: RunImpl_def step_simps split: prod.split if_split)

lemma RunImpl_consecutive_failures:
  "consecutive_failures (fst (RunImpl cfg now s b)) =
     (if state s = RESET then 0 else consecutive_failures s)"
  by (cases "state s")
     (auto simp: RunImpl_def step_simps split: prod.split if_split)

lemma RunImpl_checked_register:
  "checked_register (fst (RunImpl cfg now s b)) \<in>
     {checked_register s, (checked_register s + 1) mod length cfg}"
  by (cases "state s") (auto simp: RunImpl_def step_simps split: prod.split if_split)

lemma RunImpl_timestamps:
  "reset_timestamp (fst (RunImpl cfg now s b)) \<in> {reset_timestamp s, now}
   \<and> last_config_check_timestamp (fst (RunImpl cfg now s b)) \<in> {last_config_check_timestamp s, now}
   \<and> temperature_update_timestamp (fst (RunImpl cfg now s b)) \<in> {temperature_update_timestamp s, now}"
  by (cases "state s") (auto simp: RunImpl_def step_simps split: prod.split if_split)

lemma RunImpl_temperatures:
  "mag_temperatures (px4_mag (fst (RunImpl cfg now s b))) = mag_temperatures (px4_mag s)
   \<or> (seconds 1 < now - temperature_update_timestamp s
      \<and> temperature_update_timestamp (fst (RunImpl cfg now s b)) = now
      \<and> (\<exists>v. mag_temperatures (px4_mag (fst (RunImpl cfg now s b))) = (now, v) # mag_temperatures (px4_mag s)))"
  by (cases "state s") (auto simp: RunImpl_def step_simps split: prod.split if_split)

lemma RunImpl_sched_ok: "sched_pre s \<Longrightarrow> sched_ok (fst (RunImpl cfg now s b))"
  by (cases "state s") (auto simp: sched_ok_def sched_pre_def RunImpl_def step_simps
      split: prod.split if_split)

text \<open>
  C3: the \<open>WAIT_FOR_RESET\<close> row of the state table. One read of \<open>CNTL2\<close>; a cleared
  \<open>SOFT_RST\<close> bit moves on to \<open>CONFIGURE\<close> after 1 ms; a bit still set after more
  than one second since the reset restarts the reset after 100 ms; otherwise the state
  is polled again after 100 ms. A failed read returns \<open>0\<close>, which reads as "reset
  complete".
\<close>

theorem wait_for_reset_step:
  assumes "state s = WAIT_FOR_RESET"
  shows "RunImpl cfg now s b =
    (let v = (if fault_now b then 0 else dev b (reg_addr CNTL2));
         b' = b\<lparr>faults := tl (faults b), trace := Transfer [reg_addr CNTL2] 1 # trace b\<rparr>
     in if v AND CNTL2_BIT_SOFT_RST = 0 then (s\<lparr>state := CONFIGURE, work := Delayed (now + ms 1)\<rparr>, b')
        else if ms 1000 < now - reset_timestamp s
        then (s\<lparr>state := RESET, work := Delayed (now + ms 100)\<rparr>, b')
        else (s\<lparr>work := Delayed (now + ms 100)\<rparr>, b'))"
  using assms by (simp add: RunImpl_def step_simps RegisterRead_eq)

text \<open>
  C8: the \<open>RESET\<close> row: one write of \<open>SOFT_RST\<close> to \<open>CNTL2\<close>, the reset time
  recorded, the failure counter cleared, and \<open>WAIT_FOR_RESET\<close> 100 ms later.
\<close>

theorem reset_step:
  assumes "state s = RESET"
  shows "RunImpl cfg now s b =
    (s\<lparr>reset_timestamp := now, consecutive_failures := 0, state := WAIT_FOR_RESET,
       work := Delayed (now + ms 100)\<rparr>,
     RegisterWrite CNTL2 CNTL2_BIT_SOFT_RST b)"
  using assms by (simp add: RunImpl_def step_simps)

lemma RunImpl_work:
  "work (fst (RunImpl cfg now s b)) = work s
   \<or> (\<exists>t. work (fst (RunImpl cfg now s b)) = Delayed t \<and> now \<le> t)
   \<or> (\<exists>i t. work (fst (RunImpl cfg now s b)) = Interval i t)"
  by (cases "state s") (auto simp: RunImpl_def step_simps split: prod.split if_split)

text \<open>One step of the phase, as the facts the termination proof needs.\<close>

lemma RunImpl_bring_up:
  assumes "in_bring_up (state s)"
  shows "reset_timestamp (fst (RunImpl cfg now s b)) = reset_timestamp s
    \<and> (ms 1000 < now - reset_timestamp s \<longrightarrow>
         bring_up_rank (state (fst (RunImpl cfg now s b))) < bring_up_rank (state s))
    \<and> (ms 1000 < now - reset_timestamp s \<longrightarrow> in_bring_up (state (fst (RunImpl cfg now s b))) \<longrightarrow>
         work (fst (RunImpl cfg now s b)) = Delayed (now + ms 1))"
  using assms
  by (cases "state s") (auto simp: in_bring_up_def RunImpl_def step_simps split: prod.split)

lemma RunImpl_bring_up_work:
  assumes "in_bring_up (state (fst (RunImpl cfg now s b)))"
  shows "work (fst (RunImpl cfg now s b)) = Delayed (now + ms 1)
    \<or> work (fst (RunImpl cfg now s b)) = Delayed (now + ms 100)"
  using assms
  by (cases "state s") (auto simp: in_bring_up_def RunImpl_def step_simps split: prod.split if_splits)

text \<open>One step on a bus whose transfers all fail, in each state.\<close>

lemma RunImpl_down_wait:
  assumes "state s = WAIT_FOR_RESET" and "down (Suc n) b"
  shows "fst (RunImpl cfg now s b) = s\<lparr>state := CONFIGURE, work := Delayed (now + ms 1)\<rparr>"
  using assms by (simp add: RunImpl_def step_simps down_fault_now)

lemma RunImpl_down_read:
  assumes "state s = READ" and "down (Suc (Suc n)) b"
    and "\<not> check_value (cfg ! checked_register s) 0"
  shows "state (fst (RunImpl cfg now s b)) = RESET \<and> work (fst (RunImpl cfg now s b)) = Delayed now"
proof -
  have "fault_now b" "fault_now (b\<lparr>faults := tl (faults b)\<rparr>)"
    using assms(2) down_tl [OF assms(2), of "trace b"] by (simp_all add: down_fault_now)
  with assms(1,3) show ?thesis
    by (simp add: RunImpl_def step_simps)
qed

lemma configure_step:
  assumes "state s = CONFIGURE"
    and "configure_check cfg True (configure_apply cfg b) = (ok, b')"
  shows "RunImpl cfg now s b =
    (let s1 = s\<lparr>px4_mag := set_scale (1 / 12000) (px4_mag s)\<rparr>
     in if ok then (s1\<lparr>state := READ, work := Interval (ms 20) (now + ms 20)\<rparr>, b')
        else if ms 1000 < now - reset_timestamp s
        then (s1\<lparr>state := RESET, work := Delayed (now + ms 100)\<rparr>, b')
        else (s1\<lparr>work := Delayed (now + ms 100)\<rparr>, b'))"
  using assms by (simp add: RunImpl_def step_simps)

lemma RunImpl_down_configure:
  assumes "state s = CONFIGURE" and "down (3 * length cfg + n) b"
    and "\<not> list_all (\<lambda>c. check_value c 0) cfg"
  shows "state (fst (RunImpl cfg now s b)) = (if ms 1000 < now - reset_timestamp s then RESET else CONFIGURE)
    \<and> work (fst (RunImpl cfg now s b)) = Delayed (now + ms 100)
    \<and> reset_timestamp (fst (RunImpl cfg now s b)) = reset_timestamp s"
proof -
  obtain ok b' where cc: "configure_check cfg True (configure_apply cfg b) = (ok, b')"
    by fastforce
  have "down (2 * length cfg + (length cfg + n)) b"
    using assms(2) by (simp add: algebra_simps)
  then have "down (length cfg + n) (configure_apply cfg b)"
    by (simp add: configure_apply_down)
  then have "\<not> ok"
    using configure_check_down [of cfg n "configure_apply cfg b" True] cc assms(3) by simp
  with assms(1) cc show ?thesis
    by (simp add: configure_step Let_def set_scale_def)
qed

text \<open>
  C4: on a working bus and with a well-formed table, \<open>CONFIGURE\<close> validates at the first
  attempt: the machine enters \<open>READ\<close>, sampling every 20 ms (50 Hz) from 20 ms on,
  with the publisher's scale set to \<open>1/12000\<close> Gauss per count.
\<close>

theorem configure_enters_read:
  assumes "state s = CONFIGURE" and "reliable b" and "cfg_wf cfg"
  shows "state (fst (RunImpl cfg now s b)) = READ
    \<and> work (fst (RunImpl cfg now s b)) = Interval (ms 20) (now + ms 20)
    \<and> mag_scale (px4_mag (fst (RunImpl cfg now s b))) = 1 / 12000"
proof -
  obtain ok b' where cc: "configure_check cfg True (configure_apply cfg b) = (ok, b')"
    by fastforce
  from assms(2,3) have "ok"
    using configure_check_apply [of b cfg] cc by (simp add: cfg_wf_def)
  with assms(1) cc show ?thesis
    by (simp add: configure_step set_scale_def)
qed

text \<open>
  C5: when the check pass of \<open>CONFIGURE\<close> fails, the machine retries after 100 ms, and
  falls back to \<open>RESET\<close> once more than one second has passed since the reset.
\<close>

theorem configure_failure_step:
  assumes "state s = CONFIGURE"
    and "\<not> fst (configure_check cfg True (configure_apply cfg b))"
  shows "state (fst (RunImpl cfg now s b)) = (if ms 1000 < now - reset_timestamp s then RESET else CONFIGURE)
    \<and> work (fst (RunImpl cfg now s b)) = Delayed (now + ms 100)"
  using assms configure_step [of s cfg b _ _ now]
  by (cases "configure_check cfg True (configure_apply cfg b)") (simp add: Let_def)

text \<open>
  C6: in \<open>READ\<close>, when the configuration check is due (the sample transfer failed, or
  more than 100 ms passed since the last check) and the checked register reads wrong,
  the step ends in \<open>Reset\<close> at once: no temperature transfer, and the bus has seen
  exactly the sample transfer and the register read. The diagnostics count the
  transfer, the failed transfer if it failed, and the bad register.
\<close>

theorem read_check_failure_resets:
  assumes "state s = READ"
    and "fault_now b \<or> ms 100 < now - last_config_check_timestamp s"
    and "\<not> check_value (cfg ! checked_register s)
           (if fault_now (b\<lparr>faults := tl (faults b)\<rparr>) then 0
            else dev b (reg_addr (reg (cfg ! checked_register s))))"
  shows "RunImpl cfg now s b =
    (s\<lparr>transfer_perf := transfer_perf s + 1,
       bad_transfer_perf := (if fault_now b then bad_transfer_perf s + 1 else bad_transfer_perf s),
       bad_register_perf := bad_register_perf s + 1, state := RESET, work := Delayed now\<rparr>,
     b\<lparr>faults := tl (tl (faults b)),
       trace := Transfer [reg_addr (reg (cfg ! checked_register s))] 1
                # Transfer [reg_addr X_LSB] 7 # trace b\<rparr>)"
  using assms
  by (cases "fault_now b"; cases "fault_now (b\<lparr>faults := tl (faults b)\<rparr>)") (simp_all add: RunImpl_def step_simps)

text \<open>
  C7: in \<open>READ\<close>, a due configuration check that passes advances the round-robin index
  modulo the table size and records the check time; the state stays \<open>READ\<close> and the
  50 Hz schedule is untouched (the counter being at most 10). The diagnostics count the
  transfer, and the failed transfer if it failed.
\<close>

theorem read_check_pass_advances:
  assumes "state s = READ" and "consecutive_failures s \<le> 10"
    and "fault_now b \<or> ms 100 < now - last_config_check_timestamp s"
    and "fst (RegisterCheck (cfg ! checked_register s) (snd (snd (read_sample now s b))))"
  shows "fst (RunImpl cfg now s b) =
    s\<lparr>transfer_perf := transfer_perf s + 1,
      bad_transfer_perf := (if fault_now b then bad_transfer_perf s + 1 else bad_transfer_perf s),
      last_config_check_timestamp := now,
      checked_register := (checked_register s + 1) mod length cfg\<rparr>"
  using assms by (auto simp: RunImpl_def step_simps split: prod.split)

text \<open>
  C15: \<open>Configure\<close> refines its abstract specification on a working bus: the register
  file afterwards is \<open>apply_entries\<close> of the old one, the result is the validator's
  verdict on that register file for every entry, and the publisher's scale is
  \<open>1/12000\<close>.
\<close>

theorem Configure_refines:
  assumes "reliable b"
  shows "dev (snd (snd (Configure cfg s b))) = apply_entries cfg (dev b)
    \<and> fst (Configure cfg s b) = list_all (\<lambda>c. check_value c (apply_entries cfg (dev b) (reg_addr (reg c)))) cfg
    \<and> mag_scale (px4_mag (fst (snd (Configure cfg s b)))) = 1 / 12000"
proof -
  have r: "reliable (configure_apply cfg b)"
    using assms by (rule configure_apply_reliable)
  have d: "dev (configure_apply cfg b) = apply_entries cfg (dev b)"
    using assms by (rule configure_apply_refines)
  show ?thesis
    using r d by (simp add: Configure_def configure_check_reliable set_scale_def)
qed

text \<open>
  C25: start-up. \<open>init\<close> on a freshly constructed driver returns the error of the
  base-class initialisation unchanged and schedules nothing, so the driver never runs;
  when that initialisation succeeds it returns \<open>0\<close> and schedules the first run, in
  \<open>RESET\<close>, at once. Either way the publisher keeps the constructor's settings.
\<close>

theorem init_start:
  "fst (init ret now (QMC5883L_new external rotation)) = (if ret = PX4_OK then 0 else ret)
   \<and> state (snd (init ret now (QMC5883L_new external rotation))) = RESET
   \<and> work (snd (init ret now (QMC5883L_new external rotation))) =
        (if ret = PX4_OK then Delayed now else Cleared)
   \<and> mag_external (px4_mag (snd (init ret now (QMC5883L_new external rotation)))) = external
   \<and> mag_rotation (px4_mag (snd (init ret now (QMC5883L_new external rotation)))) = rotation"
  by (simp add: init_def QMC5883L_new_def Reset_def schedule_defs)

text \<open>
  C26: the diagnostics of one step. Only \<open>READ\<close> touches the counters: every \<open>READ\<close>
  step counts one sample transfer, counts a bad transfer exactly when that sample
  transfer fails, and counts a bad register exactly when the due configuration check
  fails. Failed register reads and temperature transfers are not counted.
\<close>

theorem RunImpl_diagnostics:
  "transfer_perf (fst (RunImpl cfg now s b)) = transfer_perf s + (if state s = READ then 1 else 0)
   \<and> bad_transfer_perf (fst (RunImpl cfg now s b)) =
       bad_transfer_perf s + (if state s = READ \<and> fault_now b then 1 else 0)
   \<and> bad_register_perf (fst (RunImpl cfg now s b)) =
       bad_register_perf s
       + (if state s = READ \<and> (fault_now b \<or> ms 100 < now - last_config_check_timestamp s)
             \<and> \<not> fst (RegisterCheck (cfg ! checked_register s) (snd (snd (read_sample now s b))))
          then 1 else 0)"
  by (cases "state s") (auto simp: RunImpl_def step_simps split: prod.split)

subsection \<open>Examples\<close>

theorem Configure_refines_witness:
  "reliable quiet_bus
   \<and> apply_entries register_cfg (dev quiet_bus) (reg_addr CNTL1) = 0x05
   \<and> dev (snd (snd (Configure register_cfg (booted 0) quiet_bus))) (reg_addr CNTL1) = 0x05"
proof -
  have h: "reliable quiet_bus" by (simp add: reliable_def quiet_bus_def)
  have a: "apply_entries register_cfg (dev quiet_bus) (reg_addr CNTL1) = 0x05"
    by (simp add: register_cfg_def quiet_bus_def target_def bit_constants)
  show ?thesis
    using Configure_refines [OF h, of register_cfg "booted 0"] h a by simp
qed

theorem wait_for_reset_step_witness:
  "state wait_example = WAIT_FOR_RESET
   \<and> state (fst (RunImpl register_cfg (ms 1100) wait_example (quiet_bus\<lparr>dev := (\<lambda>_. 0x80)\<rparr>))) = RESET
   \<and> state (fst (RunImpl register_cfg (ms 900) wait_example (quiet_bus\<lparr>dev := (\<lambda>_. 0x80)\<rparr>))) = WAIT_FOR_RESET
   \<and> state (fst (RunImpl register_cfg (ms 900) wait_example quiet_bus)) = CONFIGURE"
proof -
  have h: "state wait_example = WAIT_FOR_RESET"
    by (simp add: wait_example_def)
  show ?thesis
    using h wait_for_reset_step [OF h, of register_cfg "ms 1100" "quiet_bus\<lparr>dev := (\<lambda>_. 0x80)\<rparr>"]
      wait_for_reset_step [OF h, of register_cfg "ms 900" "quiet_bus\<lparr>dev := (\<lambda>_. 0x80)\<rparr>"]
      wait_for_reset_step [OF h, of register_cfg "ms 900" quiet_bus]
    by (simp add: wait_example_def booted_def init_def QMC5883L_new_def Reset_def schedule_defs
        quiet_bus_def fault_now_def bit_constants Let_def)
qed

theorem reset_step_witness:
  "state (booted 0) = RESET
   \<and> state (fst (RunImpl register_cfg 0 (booted 0) quiet_bus)) = WAIT_FOR_RESET
   \<and> dev (snd (RunImpl register_cfg 0 (booted 0) quiet_bus)) (reg_addr CNTL2) = 0x80"
proof -
  have h: "state (booted 0) = RESET"
    by (simp add: booted_def init_def Reset_def schedule_defs)
  show ?thesis
    using h reset_step [OF h, of register_cfg 0 quiet_bus]
    by (simp add: RegisterWrite_eq quiet_bus_def fault_now_def bit_constants)
qed

theorem configure_enters_read_witness:
  "state (wait_example\<lparr>state := CONFIGURE\<rparr>) = CONFIGURE \<and> reliable quiet_bus \<and> cfg_wf register_cfg
   \<and> state (fst (RunImpl register_cfg (ms 101) (wait_example\<lparr>state := CONFIGURE\<rparr>) quiet_bus)) = READ"
proof -
  have h: "state (wait_example\<lparr>state := CONFIGURE\<rparr>) = CONFIGURE" "reliable quiet_bus" "cfg_wf register_cfg"
    by (simp_all add: reliable_def quiet_bus_def register_cfg_wf)
  show ?thesis
    using configure_enters_read [OF h, of "ms 101"] h by simp
qed

theorem configure_failure_step_witness:
  "state (wait_example\<lparr>state := CONFIGURE\<rparr>) = CONFIGURE
   \<and> \<not> fst (configure_check register_cfg True
              (configure_apply register_cfg (quiet_bus\<lparr>faults := replicate 6 True\<rparr>)))
   \<and> state (fst (RunImpl register_cfg (ms 1100) (wait_example\<lparr>state := CONFIGURE\<rparr>)
                   (quiet_bus\<lparr>faults := replicate 6 True\<rparr>))) = RESET"
proof -
  have h: "state (wait_example\<lparr>state := CONFIGURE\<rparr>) = CONFIGURE"
    by simp
  have f: "\<not> fst (configure_check register_cfg True
              (configure_apply register_cfg (quiet_bus\<lparr>faults := replicate 6 True\<rparr>)))"
    by (simp add: register_cfg_def quiet_bus_def RegisterSetAndClearBits_def RegisterRead_eq
        RegisterWrite_eq RegisterCheck_eq fault_now_def check_value_bitwise bit_constants
        numeral_eq_Suc)
  show ?thesis
    using h f configure_failure_step [OF h f, of "ms 1100"]
    by (simp add: wait_example_def booted_def init_def QMC5883L_new_def Reset_def schedule_defs)
qed

theorem read_check_failure_resets_witness:
  "state read_example = READ
   \<and> (fault_now (quiet_bus\<lparr>faults := [True, True]\<rparr>)
      \<or> ms 100 < ms 20 - last_config_check_timestamp read_example)
   \<and> \<not> check_value (register_cfg ! checked_register read_example)
         (if fault_now ((quiet_bus\<lparr>faults := [True, True]\<rparr>)\<lparr>faults := tl (faults (quiet_bus\<lparr>faults := [True, True]\<rparr>))\<rparr>)
          then 0 else dev (quiet_bus\<lparr>faults := [True, True]\<rparr>)
                        (reg_addr (reg (register_cfg ! checked_register read_example))))
   \<and> state (fst (RunImpl register_cfg (ms 20) read_example (quiet_bus\<lparr>faults := [True, True]\<rparr>))) = RESET"
proof -
  have h: "state read_example = READ"
    by (simp add: read_example_def)
  have f: "fault_now (quiet_bus\<lparr>faults := [True, True]\<rparr>)"
    by (simp add: fault_now_def)
  have c: "\<not> check_value (register_cfg ! checked_register read_example)
         (if fault_now ((quiet_bus\<lparr>faults := [True, True]\<rparr>)\<lparr>faults := tl (faults (quiet_bus\<lparr>faults := [True, True]\<rparr>))\<rparr>)
          then 0 else dev (quiet_bus\<lparr>faults := [True, True]\<rparr>)
                        (reg_addr (reg (register_cfg ! checked_register read_example))))"
    by (simp add: read_example_def wait_example_def booted_def init_def QMC5883L_new_def Reset_def
        schedule_defs register_cfg_def fault_now_def check_value_bitwise bit_constants)
  show ?thesis
    using h f c read_check_failure_resets [OF h _ c, of "ms 20"] by simp
qed

theorem read_check_pass_advances_witness:
  "state read_example = READ \<and> consecutive_failures read_example \<le> 10
   \<and> (fault_now (quiet_bus\<lparr>dev := (\<lambda>_. 0x05), faults := [True]\<rparr>)
      \<or> ms 100 < ms 20 - last_config_check_timestamp read_example)
   \<and> fst (RegisterCheck (register_cfg ! checked_register read_example)
          (snd (snd (read_sample (ms 20) read_example (quiet_bus\<lparr>dev := (\<lambda>_. 0x05), faults := [True]\<rparr>)))))
   \<and> checked_register (fst (RunImpl register_cfg (ms 20) read_example
          (quiet_bus\<lparr>dev := (\<lambda>_. 0x05), faults := [True]\<rparr>))) = 1"
proof -
  have h: "state read_example = READ" "consecutive_failures read_example \<le> 10"
    by (simp_all add: read_example_def wait_example_def booted_def init_def QMC5883L_new_def Reset_def
        schedule_defs)
  have f: "fault_now (quiet_bus\<lparr>dev := (\<lambda>_. 0x05), faults := [True]\<rparr>)"
    by (simp add: fault_now_def)
  have c: "fst (RegisterCheck (register_cfg ! checked_register read_example)
          (snd (snd (read_sample (ms 20) read_example (quiet_bus\<lparr>dev := (\<lambda>_. 0x05), faults := [True]\<rparr>)))))"
    by (simp add: read_sample_def transfer_read sample_guard_never read_example_def wait_example_def booted_def init_def QMC5883L_new_def
        Reset_def schedule_defs register_cfg_def fault_now_def RegisterCheck_eq
        check_value_bitwise bit_constants)
  show ?thesis
    using h f c read_check_pass_advances [OF h _ c]
    by (simp add: read_example_def wait_example_def booted_def init_def QMC5883L_new_def Reset_def
        schedule_defs register_cfg_def)
qed

text \<open>
  C21: in \<open>READ\<close>, with no configuration check due and more than one second since the
  last temperature update, the step reads \<open>TOUT_LSB\<close> and \<open>TOUT_MSB\<close> in one
  transfer and hands \<open>sint (TOUT_MSB:TOUT_LSB) / 100\<close> degrees to the publisher. The
  update time is recorded even when that transfer fails, and then nothing is published.
\<close>

theorem read_temperature_step:
  assumes "state s = READ" and "consecutive_failures s \<le> 10" and "\<not> fault_now b"
    and "\<not> ms 100 < now - last_config_check_timestamp s"
    and "seconds 1 < now - temperature_update_timestamp s"
  shows "fst (RunImpl cfg now s b) =
    s\<lparr>transfer_perf := transfer_perf s + 1, temperature_update_timestamp := now,
      px4_mag := (if fault_now (b\<lparr>faults := tl (faults b)\<rparr>) then px4_mag s
                  else set_temperature now
                         (real_of_int (sint (combine (dev b (reg_addr TEMP_MSB)) (dev b (reg_addr TEMP_LSB)))) / 100)
                         (px4_mag s))\<rparr>"
  using assms
  by (simp add: RunImpl_def step_simps dev_load_def temperature_C_def numeral_2_eq_2)

theorem read_temperature_step_witness:
  "state (read_example\<lparr>last_config_check_timestamp := ms 1150\<rparr>) = READ
   \<and> consecutive_failures (read_example\<lparr>last_config_check_timestamp := ms 1150\<rparr>) \<le> 10
   \<and> \<not> fault_now (quiet_bus\<lparr>dev := (\<lambda>_. 0)(7 := 0x10, 8 := 0x0A)\<rparr>)
   \<and> \<not> ms 100 < ms 1200 - last_config_check_timestamp (read_example\<lparr>last_config_check_timestamp := ms 1150\<rparr>)
   \<and> seconds 1 < ms 1200 - temperature_update_timestamp (read_example\<lparr>last_config_check_timestamp := ms 1150\<rparr>)
   \<and> mag_temperatures (px4_mag (fst (RunImpl register_cfg (ms 1200)
        (read_example\<lparr>last_config_check_timestamp := ms 1150\<rparr>)
        (quiet_bus\<lparr>dev := (\<lambda>_. 0)(7 := 0x10, 8 := 0x0A)\<rparr>)))) = [(ms 1200, 2576 / 100)]"
proof -
  let ?s = "read_example\<lparr>last_config_check_timestamp := ms 1150\<rparr>"
  let ?b = "quiet_bus\<lparr>dev := (\<lambda>_. 0)(7 := 0x10, 8 := 0x0A)\<rparr>"
  have h: "state ?s = READ" "consecutive_failures ?s \<le> 10" "\<not> fault_now ?b"
    "\<not> ms 100 < ms 1200 - last_config_check_timestamp ?s"
    "seconds 1 < ms 1200 - temperature_update_timestamp ?s"
    by (simp_all add: read_example_def wait_example_def booted_def init_def QMC5883L_new_def Reset_def
        schedule_defs quiet_bus_def fault_now_def)
  have c: "real_of_int (sint (combine (dev ?b (reg_addr TEMP_MSB)) (dev ?b (reg_addr TEMP_LSB)))) = 2576"
    by (simp add: quiet_bus_def combine_def)
  show ?thesis
    using h read_temperature_step [OF h, of register_cfg] c
    by (simp add: read_example_def wait_example_def booted_def init_def QMC5883L_new_def Reset_def
        schedule_defs quiet_bus_def fault_now_def set_temperature_def)
qed

lemma next_checked_iterate:
  "i < length cfg \<Longrightarrow> (next_checked cfg ^^ k) i = (i + k) mod length cfg"
proof (induction k)
  case 0
  then show ?case by simp
next
  case (Suc k)
  then show ?case by (simp add: next_checked_def mod_Suc_eq)
qed

text \<open>
  C23: round-robin coverage (specification, section 8): starting from any valid index,
  the indices that \<open>length cfg\<close> consecutive passing checks visit are all the indices
  of the table, so every entry is re-validated once per round.
\<close>

theorem round_robin_covers:
  assumes "i < length cfg"
  shows "set (map (\<lambda>k. (next_checked cfg ^^ k) i) [0..<length cfg]) = {0..<length cfg}"
proof -
  let ?n = "length cfg"
  have pos: "0 < ?n"
    using assms by linarith
  have "j \<in> (\<lambda>k. (i + k) mod ?n) ` {0..<?n}" if "j < ?n" for j
  proof
    show "j = (i + (?n - i + j) mod ?n) mod ?n"
      using assms that by (simp add: mod_add_right_eq)
    show "(?n - i + j) mod ?n \<in> {0..<?n}"
      using pos by simp
  qed
  then show ?thesis
    using assms pos by (auto simp: next_checked_iterate)
qed

theorem round_robin_covers_witness:
  "(1 :: nat) < length register_cfg
   \<and> set (map (\<lambda>k. (next_checked register_cfg ^^ k) 1) [0..<length register_cfg]) = {0, 1}"
proof -
  have h: "(1 :: nat) < length register_cfg"
    by (simp add: register_cfg_def)
  have "{0..<length register_cfg} = {0 :: nat, 1}"
    by (auto simp: register_cfg_def)
  then show ?thesis
    using round_robin_covers [OF h] h by simp
qed

text \<open>
  C31: the failure threshold of \<open>READ\<close> (lines 228--230). A step in which the sample
  transfer works and no configuration check is due keeps the failure counter as it
  is, and the step resets the machine exactly when the counter exceeds 10.
\<close>

theorem read_failure_threshold:
  assumes "state s = READ" and "\<not> fault_now b"
    and "\<not> ms 100 < now - last_config_check_timestamp s"
  shows "state (fst (RunImpl cfg now s b)) = (if 10 < consecutive_failures s then RESET else READ)
    \<and> consecutive_failures (fst (RunImpl cfg now s b)) = consecutive_failures s"
  using assms by (simp add: RunImpl_def step_simps split: prod.split)

theorem read_failure_threshold_witness:
  "state (read_example\<lparr>consecutive_failures := 11\<rparr>) = READ \<and> \<not> fault_now quiet_bus
   \<and> \<not> ms 100 < ms 20 - last_config_check_timestamp (read_example\<lparr>consecutive_failures := 11\<rparr>)
   \<and> state (fst (RunImpl register_cfg (ms 20) (read_example\<lparr>consecutive_failures := 11\<rparr>) quiet_bus)) = RESET
   \<and> state (fst (RunImpl register_cfg (ms 20) (read_example\<lparr>consecutive_failures := 10\<rparr>) quiet_bus)) = READ"
proof -
  have h: "state (read_example\<lparr>consecutive_failures := c\<rparr>) = READ" "\<not> fault_now quiet_bus"
      "\<not> ms 100 < ms 20 - last_config_check_timestamp (read_example\<lparr>consecutive_failures := c\<rparr>)" for c
    by (simp_all add: read_example_def wait_example_def booted_def init_def QMC5883L_new_def Reset_def
        schedule_defs quiet_bus_def fault_now_def)
  show ?thesis
    using h read_failure_threshold [OF h(1) [of 11] h(2) h(3) [of 11], of register_cfg]
      read_failure_threshold [OF h(1) [of 10] h(2) h(3) [of 10], of register_cfg]
    by simp
qed

end
