(* ===== verification/System.thy ===== *)
theory System
  imports Lifecycle
begin

text \<open>
  The driver in its environment. The scheduler (\<open>ScheduledWorkItem\<close>, outside
  \<open>src/\<close>) runs \<open>RunImpl\<close> once a pending run is due; firing a one-shot run
  consumes it, firing a recurring run re-arms it one interval later. The scheduler may
  run the item late, never early, and the clock never goes back. Between runs the
  environment may change any device register (a device reset, electrical noise) and
  the outcome of the next transfers. \<open>reachable\<close> are the states that runs and
  environment steps reach from \<open>init\<close> at time 0.
\<close>

record sys =
  drv :: QMC5883L
  bus :: bus
  clock :: hrt_abstime

fun due :: "work \<Rightarrow> hrt_abstime option" where
  "due Cleared = None"
| "due (Delayed t) = Some t"
| "due (Interval i t) = Some t"

fun fire :: "work \<Rightarrow> work" where
  "fire Cleared = Cleared"
| "fire (Delayed t) = Cleared"
| "fire (Interval i t) = Interval i (t + i)"

inductive sys_step :: "register_config_t list \<Rightarrow> sys \<Rightarrow> sys \<Rightarrow> bool" for cfg where
  run: "due (work (drv s)) = Some t \<Longrightarrow> t \<le> now \<Longrightarrow> clock s \<le> now \<Longrightarrow>
        RunImpl cfg now ((drv s)\<lparr>work := fire (work (drv s))\<rparr>) (bus s) = (d', b') \<Longrightarrow>
        sys_step cfg s \<lparr>drv = d', bus = b', clock = now\<rparr>"
| env: "sys_step cfg s (s\<lparr>bus := (bus s)\<lparr>dev := d, faults := fs\<rparr>\<rparr>)"

definition init_sys :: "(byte \<Rightarrow> byte) \<Rightarrow> bool list \<Rightarrow> sys" where
  "init_sys d fs = \<lparr>drv = booted 0, bus = \<lparr>dev = d, faults = fs, trace = []\<rparr>, clock = 0\<rparr>"

text \<open>
  A run of the work item at time \<open>now\<close>, and the runs of a punctual scheduler: each run
  happens at its due time (or at once, if that time has passed). The fuel bounds the
  number of runs; \<open>run_on_time_reachable\<close> shows that every state it produces is a
  state of \<open>sys_step\<close>.
\<close>

definition step_at :: "register_config_t list \<Rightarrow> hrt_abstime \<Rightarrow> sys \<Rightarrow> sys" where
  "step_at cfg now s =
     (let (d', b') = RunImpl cfg now ((drv s)\<lparr>work := fire (work (drv s))\<rparr>) (bus s)
      in \<lparr>drv = d', bus = b', clock = now\<rparr>)"

fun run_on_time :: "register_config_t list \<Rightarrow> nat \<Rightarrow> sys \<Rightarrow> sys list" where
  "run_on_time cfg 0 s = []"
| "run_on_time cfg (Suc n) s =
     (case due (work (drv s)) of
        None \<Rightarrow> []
      | Some t \<Rightarrow> (let s' = step_at cfg (max t (clock s)) s in s' # run_on_time cfg n s'))"

text \<open>
  Persistent bus failure: before every run the environment makes the next
  \<open>3 * length cfg + 2\<close> transfers fail, more than one run issues. \<open>down_run\<close> is
  the punctual scheduler under that environment.
\<close>

definition fail_env :: "register_config_t list \<Rightarrow> sys \<Rightarrow> sys" where
  "fail_env cfg s = s\<lparr>bus := (bus s)\<lparr>faults := replicate (3 * length cfg + 2) True\<rparr>\<rparr>"

fun down_run :: "register_config_t list \<Rightarrow> nat \<Rightarrow> sys \<Rightarrow> sys list" where
  "down_run cfg 0 s = []"
| "down_run cfg (Suc n) s =
     (case due (work (drv s)) of
        None \<Rightarrow> []
      | Some t \<Rightarrow> (let s' = step_at cfg (max t (clock s)) (fail_env cfg s) in s' # down_run cfg n s'))"

inductive reachable :: "register_config_t list \<Rightarrow> sys \<Rightarrow> bool" for cfg where
  start: "reachable cfg (init_sys d fs)"
| step: "reachable cfg s \<Longrightarrow> sys_step cfg s s' \<Longrightarrow> reachable cfg s'"

subsection \<open>The invariant\<close>

text \<open>
  Published temperatures, newest first, more than one second apart.
\<close>

fun spaced :: "(hrt_abstime \<times> real) list \<Rightarrow> bool" where
  "spaced [] = True"
| "spaced [x] = True"
| "spaced (x # y # r) \<longleftrightarrow> fst y + seconds 1 < fst x \<and> spaced (y # r)"

definition temps_ok :: "QMC5883L \<Rightarrow> bool" where
  "temps_ok s \<longleftrightarrow>
     spaced (mag_temperatures (px4_mag s))
     \<and> (case mag_temperatures (px4_mag s) of [] \<Rightarrow> True
        | p # _ \<Rightarrow> fst p \<le> temperature_update_timestamp s)"

definition drv_inv :: "register_config_t list \<Rightarrow> sys \<Rightarrow> bool" where
  "drv_inv cfg s \<longleftrightarrow>
     consecutive_failures (drv s) = 0
     \<and> checked_register (drv s) < length cfg
     \<and> mag_samples (px4_mag (drv s)) = []
     \<and> reset_timestamp (drv s) \<le> clock s
     \<and> last_config_check_timestamp (drv s) \<le> clock s
     \<and> temperature_update_timestamp (drv s) \<le> clock s
     \<and> sched_ok (drv s)
     \<and> (\<forall>t. work (drv s) = Delayed t \<longrightarrow> clock s \<le> t)
     \<and> temps_ok (drv s)"

inductive_cases sys_step_runE: "sys_step cfg s s'"

lemma step_at_drv:
  "drv (step_at cfg now s) = fst (RunImpl cfg now ((drv s)\<lparr>work := fire (work (drv s))\<rparr>) (bus s))
   \<and> clock (step_at cfg now s) = now"
  by (simp add: step_at_def case_prod_beta)

lemma fire_not_Delayed: "fire w \<noteq> Delayed t"
  by (cases w) auto

lemma sched_ok_fire: "sched_ok s \<Longrightarrow> sched_pre (s\<lparr>work := fire (work s)\<rparr>)"
  by (auto simp: sched_ok_def sched_pre_def split: if_splits)

lemma temps_ok_step:
  assumes ok: "temps_ok s" and le: "temperature_update_timestamp s \<le> now"
  shows "temps_ok (fst (RunImpl cfg now s b))"
proof -
  let ?s' = "fst (RunImpl cfg now s b)"
  let ?ts = "mag_temperatures (px4_mag s)"
  have ts': "temperature_update_timestamp s \<le> temperature_update_timestamp ?s'"
    using RunImpl_timestamps [of cfg now s b] le by auto
  consider (same) "mag_temperatures (px4_mag ?s') = ?ts"
    | (new) v where "seconds 1 < now - temperature_update_timestamp s"
        "temperature_update_timestamp ?s' = now" "mag_temperatures (px4_mag ?s') = (now, v) # ?ts"
    using RunImpl_temperatures [of cfg now s b] by blast
  then show ?thesis
  proof cases
    case same
    with ok ts' show ?thesis
      by (auto simp: temps_ok_def split: list.splits)
  next
    case new
    with ok show ?thesis
      by (auto simp: temps_ok_def split: list.splits)
  qed
qed

lemma drv_inv_init: "cfg \<noteq> [] \<Longrightarrow> drv_inv cfg (init_sys d fs)"
  by (simp add: drv_inv_def init_sys_def booted_def init_def QMC5883L_new_def Reset_def schedule_defs
      sched_ok_def temps_ok_def)

lemma drv_inv_run:
  assumes inv: "drv_inv cfg s" and le: "clock s \<le> now" and ne: "cfg \<noteq> []"
    and run: "RunImpl cfg now ((drv s)\<lparr>work := fire (work (drv s))\<rparr>) (bus s) = (d', b')"
  shows "drv_inv cfg \<lparr>drv = d', bus = b', clock = now\<rparr>"
proof -
  let ?s = "(drv s)\<lparr>work := fire (work (drv s))\<rparr>"
  have d': "d' = fst (RunImpl cfg now ?s (bus s))"
    using run by simp
  have "consecutive_failures d' = 0"
    using inv by (simp add: d' RunImpl_consecutive_failures drv_inv_def)
  moreover have "checked_register d' < length cfg"
    using inv ne RunImpl_checked_register [of cfg now ?s "bus s"] by (auto simp: d' drv_inv_def)
  moreover have "mag_samples (px4_mag d') = []"
    using inv by (simp add: d' RunImpl_never_publishes drv_inv_def)
  moreover have "reset_timestamp d' \<le> now \<and> last_config_check_timestamp d' \<le> now
      \<and> temperature_update_timestamp d' \<le> now"
    using inv le RunImpl_timestamps [of cfg now ?s "bus s"] by (auto simp: d' drv_inv_def)
  moreover have "sched_ok d'"
    using inv by (simp add: d' RunImpl_sched_ok sched_ok_fire drv_inv_def)
  moreover have "\<forall>t. work d' = Delayed t \<longrightarrow> now \<le> t"
    using RunImpl_work [of cfg now ?s "bus s"] by (auto simp: d' fire_not_Delayed)
  moreover have "temps_ok d'"
    using inv le unfolding d'
    by (intro temps_ok_step) (auto simp: drv_inv_def temps_ok_def split: list.splits)
  ultimately show ?thesis by (simp add: drv_inv_def)
qed

lemma sys_step_inv: "sys_step cfg s s' \<Longrightarrow> drv_inv cfg s \<Longrightarrow> cfg \<noteq> [] \<Longrightarrow> drv_inv cfg s'"
proof (induction rule: sys_step.induct)
  case (run s t now d' b')
  then show ?case by (intro drv_inv_run) simp_all
next
  case (env s d fs)
  then show ?case by (simp add: drv_inv_def)
qed

lemma reachable_inv: "reachable cfg s \<Longrightarrow> cfg \<noteq> [] \<Longrightarrow> drv_inv cfg s"
  by (induction rule: reachable.induct) (auto intro: drv_inv_init sys_step_inv)

subsection \<open>Punctual runs\<close>

lemma run_on_time_reachable:
  "reachable cfg s \<Longrightarrow> s' \<in> set (run_on_time cfg n s) \<Longrightarrow> reachable cfg s'"
proof (induction n arbitrary: s)
  case 0
  then show ?case by simp
next
  case (Suc n)
  then obtain t where t: "due (work (drv s)) = Some t"
    by (cases "due (work (drv s))") auto
  let ?s1 = "step_at cfg (max t (clock s)) s"
  have "sys_step cfg s ?s1"
    by (auto simp: step_at_def split: prod.split intro!: sys_step.run [OF t])
  with Suc.prems(1) have r: "reachable cfg ?s1"
    by (rule reachable.step)
  from Suc.prems(2) t have "s' = ?s1 \<or> s' \<in> set (run_on_time cfg n ?s1)"
    by (simp add: Let_def)
  with r Suc.IH show ?case by blast
qed

subsection \<open>Runs on a failing bus\<close>

lemma fail_env_down: "down (3 * length cfg + 2) (bus (fail_env cfg s))"
  by (simp add: fail_env_def down_def)

lemma step_at_fail:
  "drv (step_at cfg now (fail_env cfg s)) =
     fst (RunImpl cfg now ((drv s)\<lparr>work := fire (work (drv s))\<rparr>) (bus (fail_env cfg s)))
   \<and> clock (step_at cfg now (fail_env cfg s)) = now"
  by (simp add: step_at_def fail_env_def case_prod_beta)

lemma down_run_reachable:
  "reachable cfg s \<Longrightarrow> s' \<in> set (down_run cfg n s) \<Longrightarrow> reachable cfg s'"
proof (induction n arbitrary: s)
  case 0
  then show ?case by simp
next
  case (Suc n)
  then obtain t where t: "due (work (drv s)) = Some t"
    by (cases "due (work (drv s))") auto
  let ?s1 = "step_at cfg (max t (clock s)) (fail_env cfg s)"
  have "sys_step cfg s (fail_env cfg s)"
    using sys_step.env [where s = s and d = "dev (bus s)" and fs = "replicate (3 * length cfg + 2) True"]
    by (simp add: fail_env_def)
  moreover have "sys_step cfg (fail_env cfg s) ?s1"
    using t by (auto simp: step_at_def fail_env_def split: prod.split intro!: sys_step.run)
  ultimately have r: "reachable cfg ?s1"
    using Suc.prems(1) by (blast intro: reachable.step)
  from Suc.prems(2) t have "s' = ?s1 \<or> s' \<in> set (down_run cfg n ?s1)"
    by (simp add: Let_def)
  with r Suc.IH show ?case by blast
qed

lemma down_run_due:
  "due (work (drv s)) = Some t \<Longrightarrow>
   down_run cfg (Suc n) s =
     step_at cfg (max t (clock s)) (fail_env cfg s) # down_run cfg n (step_at cfg (max t (clock s)) (fail_env cfg s))"
  by (simp add: Let_def)

lemma fail_env_down2: "down (Suc (Suc (3 * length cfg))) (bus (fail_env cfg s))"
  using fail_env_down [of cfg s] by simp

lemma down_run_mono: "set (down_run cfg n s) \<subseteq> set (down_run cfg (n + m) s)"
proof (induction n arbitrary: s)
  case 0
  then show ?case by simp
next
  case (Suc n)
  then show ?case by (auto simp: Let_def split: option.split)
qed

lemma check_value_zero: "check_value c 0 \<longleftrightarrow> set_bits c = 0"
  by (auto simp: check_value_bitwise)

text \<open>
  In \<open>CONFIGURE\<close> with every check failing, each retry comes at least 100 ms after the
  previous one, so \<open>RESET\<close> follows within \<open>k + 1\<close> runs once \<open>k\<close> more retries
  carry the elapsed time past one second.
\<close>

lemma down_run_configure:
  assumes "state (drv s) = CONFIGURE" and "work (drv s) = Delayed t"
    and "reset_timestamp (drv s) \<le> t"
    and "ms 1000 < k * ms 100 + (t - reset_timestamp (drv s))"
    and "\<not> list_all (\<lambda>c. check_value c 0) cfg"
  shows "RESET \<in> set (map (\<lambda>s. state (drv s)) (down_run cfg (Suc k) s))"
  using assms
proof (induction k arbitrary: s t)
  case 0
  let ?now = "max t (clock s)"
  let ?s1 = "step_at cfg ?now (fail_env cfg s)"
  have "state (drv ?s1) = (if ms 1000 < ?now - reset_timestamp (drv s) then RESET else CONFIGURE)"
    using "0.prems"(1,5)
      RunImpl_down_configure [where s = "(drv s)\<lparr>work := fire (work (drv s))\<rparr>" and cfg = cfg
        and n = 2 and b = "bus (fail_env cfg s)" and now = "max t (clock s)", OF _ fail_env_down]
    by (simp add: step_at_fail)
  with "0.prems"(2,4) show ?case
    by (auto simp: Let_def)
next
  case (Suc k)
  let ?now = "max t (clock s)"
  let ?s1 = "step_at cfg ?now (fail_env cfg s)"
  let ?r = "reset_timestamp (drv s)"
  have s1: "state (drv ?s1) = (if ms 1000 < ?now - ?r then RESET else CONFIGURE)"
      "work (drv ?s1) = Delayed (?now + ms 100)" "reset_timestamp (drv ?s1) = ?r"
    using Suc.prems(1,5)
      RunImpl_down_configure [where s = "(drv s)\<lparr>work := fire (work (drv s))\<rparr>" and cfg = cfg
        and n = 2 and b = "bus (fail_env cfg s)" and now = "max t (clock s)", OF _ fail_env_down]
    by (simp_all add: step_at_fail)
  have run: "down_run cfg (Suc (Suc k)) s = ?s1 # down_run cfg (Suc k) ?s1"
    using Suc.prems(2) by (simp add: Let_def)
  show ?case
  proof (cases "ms 1000 < ?now - ?r")
    case True
    with s1 run show ?thesis by simp
  next
    case False
    have h4: "ms 1000 < k * ms 100 + (?now + ms 100 - reset_timestamp (drv ?s1))"
      using Suc.prems(3,4) s1(3) by (simp add: algebra_simps)
    have h3: "reset_timestamp (drv ?s1) \<le> ?now + ms 100"
      using Suc.prems(3) s1(3) by simp
    have st: "state (drv ?s1) = CONFIGURE"
      using s1(1) False by simp
    have "RESET \<in> set (map (\<lambda>s. state (drv s)) (down_run cfg (Suc k) ?s1))"
      by (rule Suc.IH [OF st s1(2) h3 h4 Suc.prems(5)])
    with run show ?thesis by simp
  qed
qed

lemma step_at_reset:
  assumes "state (drv s) = RESET"
  shows "step_at cfg now s =
    \<lparr>drv = (drv s)\<lparr>reset_timestamp := now, consecutive_failures := 0, state := WAIT_FOR_RESET,
                   work := Delayed (now + ms 100)\<rparr>,
     bus = RegisterWrite CNTL2 CNTL2_BIT_SOFT_RST (bus s), clock = now\<rparr>"
  using assms by (simp add: step_at_def RunImpl_def run_reset_def schedule_defs)

subsection \<open>Properties of every reachable state\<close>

lemma init_reachable: "reachable register_cfg (init_sys (\<lambda>_. 0) [])"
  by (rule reachable.start)

lemma register_cfg_nonempty: "register_cfg \<noteq> []"
  by (simp add: register_cfg_def)

text \<open>
  C1: No reachable state has published a magnetic sample: whatever the device returns and whichever transfers fail, the guard of line 178 rejects every sample, so the Read state never hands a measurement to the publisher.
\<close>

theorem reachable_never_publishes:
  assumes "reachable cfg s" and "cfg \<noteq> []"
  shows "mag_samples (px4_mag (drv s)) = []"
  using reachable_inv [OF assms] by (auto simp: drv_inv_def sched_ok_def temps_ok_def split: if_splits)

theorem reachable_never_publishes_witness:
  "reachable register_cfg (init_sys (\<lambda>_. 0) []) \<and> register_cfg \<noteq> []
   \<and> (let s = init_sys (\<lambda>_. 0) [] in mag_samples (px4_mag (drv s)) = [])"
  using reachable_never_publishes [OF init_reachable register_cfg_nonempty] init_reachable register_cfg_nonempty
  by (simp add: Let_def)

text \<open>
  C2: The consecutive-failure counter is zero in every reachable state: it is cleared on reset and never incremented, so the failure threshold (more than 10) never forces a reset.
\<close>

theorem reachable_failure_counter_zero:
  assumes "reachable cfg s" and "cfg \<noteq> []"
  shows "consecutive_failures (drv s) = 0"
  using reachable_inv [OF assms] by (auto simp: drv_inv_def sched_ok_def temps_ok_def split: if_splits)

theorem reachable_failure_counter_zero_witness:
  "reachable register_cfg (init_sys (\<lambda>_. 0) []) \<and> register_cfg \<noteq> []
   \<and> (let s = init_sys (\<lambda>_. 0) [] in consecutive_failures (drv s) = 0)"
  using reachable_failure_counter_zero [OF init_reachable register_cfg_nonempty] init_reachable register_cfg_nonempty
  by (simp add: Let_def)

text \<open>
  C9: The round-robin index into the configuration table is always a valid index, so the access _register_cfg[_checked_register] never leaves the table.
\<close>

theorem reachable_checked_register_in_bounds:
  assumes "reachable cfg s" and "cfg \<noteq> []"
  shows "checked_register (drv s) < length cfg"
  using reachable_inv [OF assms] by (auto simp: drv_inv_def sched_ok_def temps_ok_def split: if_splits)

theorem reachable_checked_register_in_bounds_witness:
  "reachable register_cfg (init_sys (\<lambda>_. 0) []) \<and> register_cfg \<noteq> []
   \<and> (let s = init_sys (\<lambda>_. 0) [] in checked_register (drv s) < length register_cfg)"
  using reachable_checked_register_in_bounds [OF init_reachable register_cfg_nonempty] init_reachable register_cfg_nonempty
  by (simp add: Let_def)

text \<open>
  C12: Every stored timestamp is at most the current clock, so each elapsed-time subtraction of the driver is exact (no unsigned wrap-around).
\<close>

theorem reachable_timestamps_le_clock:
  assumes "reachable cfg s" and "cfg \<noteq> []"
  shows "reset_timestamp (drv s) \<le> clock s \<and> last_config_check_timestamp (drv s) \<le> clock s
     \<and> temperature_update_timestamp (drv s) \<le> clock s"
  using reachable_inv [OF assms] by (auto simp: drv_inv_def sched_ok_def temps_ok_def split: if_splits)

theorem reachable_timestamps_le_clock_witness:
  "reachable register_cfg (init_sys (\<lambda>_. 0) []) \<and> register_cfg \<noteq> []
   \<and> (let s = init_sys (\<lambda>_. 0) [] in reset_timestamp (drv s) \<le> clock s \<and> last_config_check_timestamp (drv s) \<le> clock s      \<and> temperature_update_timestamp (drv s) \<le> clock s)"
  using reachable_timestamps_le_clock [OF init_reachable register_cfg_nonempty] init_reachable register_cfg_nonempty
  by (simp add: Let_def)

text \<open>
  C10: The driver is never left unscheduled: a run is always pending, recurring every 20 ms exactly in the Read state and a single delayed run in every other state.
\<close>

theorem reachable_always_scheduled:
  assumes "reachable cfg s" and "cfg \<noteq> []"
  shows "due (work (drv s)) \<noteq> None
     \<and> (state (drv s) = READ \<longleftrightarrow> (\<exists>t. work (drv s) = Interval (ms 20) t))"
  using reachable_inv [OF assms] by (auto simp: drv_inv_def sched_ok_def temps_ok_def split: if_splits)

theorem reachable_always_scheduled_witness:
  "reachable register_cfg (init_sys (\<lambda>_. 0) []) \<and> register_cfg \<noteq> []
   \<and> (let s = init_sys (\<lambda>_. 0) [] in due (work (drv s)) \<noteq> None      \<and> (state (drv s) = READ \<longleftrightarrow> (\<exists>t. work (drv s) = Interval (ms 20) t)))"
  using reachable_always_scheduled [OF init_reachable register_cfg_nonempty] init_reachable register_cfg_nonempty
  by (simp add: Let_def)

text \<open>
  C11: Published temperatures are more than one second apart (the 1 Hz ceiling), and none is newer than the last temperature update time.
\<close>

theorem reachable_temperature_rate:
  assumes "reachable cfg s" and "cfg \<noteq> []"
  shows "spaced (mag_temperatures (px4_mag (drv s)))"
  using reachable_inv [OF assms] by (auto simp: drv_inv_def sched_ok_def temps_ok_def split: if_splits)

theorem reachable_temperature_rate_witness:
  "reachable register_cfg (init_sys (\<lambda>_. 0) []) \<and> register_cfg \<noteq> []
   \<and> (let s = init_sys (\<lambda>_. 0) [] in spaced (mag_temperatures (px4_mag (drv s))))"
  using reachable_temperature_rate [OF init_reachable register_cfg_nonempty] init_reachable register_cfg_nonempty
  by (simp add: Let_def)

text \<open>
  C22: self-healing under persistent failure (specification, sections 7 and 8). From
  every reachable state, when every transfer fails and every table entry sets some bit,
  a punctual scheduler brings the machine back to \<open>RESET\<close> within 13 runs: one run from
  \<open>READ\<close> (the due check reads 0), and from the other states through the
  \<open>CONFIGURE\<close> retries until more than one second has passed since the reset.
\<close>

theorem down_bus_returns_to_reset:
  assumes "reachable cfg s" and "cfg \<noteq> []" and "list_all (\<lambda>c. set_bits c \<noteq> 0) cfg"
  shows "RESET \<in> set (map (\<lambda>s. state (drv s)) (down_run cfg 13 s))"
proof -
  have inv: "drv_inv cfg s"
    using assms(1,2) by (rule reachable_inv)
  have nl: "\<not> list_all (\<lambda>c. check_value c 0) cfg"
    using assms(2,3) by (cases cfg) (auto simp: check_value_zero)
  have mono: "set (down_run cfg 12 s') \<subseteq> set (down_run cfg 13 s')" for s'
    using down_run_mono [of cfg 12 s' 1] by simp
  let ?f = "\<lambda>s. state (drv s)"
  consider "state (drv s) = READ" | "state (drv s) = RESET" | "state (drv s) = WAIT_FOR_RESET"
    | "state (drv s) = CONFIGURE"
    by (cases "state (drv s)") auto
  then show ?thesis
  proof cases
    case 1
    with inv obtain t where w: "work (drv s) = Interval (ms 20) t"
      by (auto simp: drv_inv_def sched_ok_def)
    let ?s1 = "step_at cfg (max t (clock s)) (fail_env cfg s)"
    have "cfg ! checked_register (drv s) \<in> set cfg"
      using inv by (simp add: drv_inv_def)
    then have "\<not> check_value (cfg ! checked_register (drv s)) 0"
      using assms(3) by (auto simp: list_all_iff check_value_zero)
    then have "state (drv ?s1) = RESET"
      using RunImpl_down_read [OF _ fail_env_down2, of "(drv s)\<lparr>work := fire (work (drv s))\<rparr>"] 1
      by (simp add: step_at_fail)
    moreover have "down_run cfg 13 s = ?s1 # down_run cfg 12 ?s1"
      using down_run_due [of s t cfg 12] w by simp
    ultimately show ?thesis by simp
  next
    case 2
    with inv obtain t where w: "work (drv s) = Delayed t" and ct: "clock s \<le> t"
      by (auto simp: drv_inv_def sched_ok_def)
    let ?s1 = "step_at cfg t (fail_env cfg s)"
    let ?s2 = "step_at cfg (t + ms 100) (fail_env cfg ?s1)"
    have s1: "state (drv ?s1) = WAIT_FOR_RESET" "reset_timestamp (drv ?s1) = t"
        "work (drv ?s1) = Delayed (t + ms 100)" "clock ?s1 = t"
      using 2 by (simp_all add: step_at_reset fail_env_def)
    have s2: "state (drv ?s2) = CONFIGURE" "reset_timestamp (drv ?s2) = t"
        "work (drv ?s2) = Delayed (t + ms 100 + ms 1)"
      using s1 RunImpl_down_wait [OF _ fail_env_down2, of "(drv ?s1)\<lparr>work := fire (work (drv ?s1))\<rparr>"]
      by (simp_all add: step_at_fail)
    have "RESET \<in> set (map ?f (down_run cfg (Suc 9) ?s2))"
      by (rule down_run_configure [where t = "t + ms 100 + ms 1"]) (use s2 nl in simp_all)
    moreover have "set (down_run cfg (Suc 9) ?s2) \<subseteq> set (down_run cfg 11 ?s2)"
      using down_run_mono [of cfg "Suc 9" ?s2 1] by simp
    moreover have "down_run cfg 13 s = ?s1 # ?s2 # down_run cfg 11 ?s2"
    proof -
      have "down_run cfg (Suc 12) s = ?s1 # down_run cfg (Suc 11) ?s1"
        using down_run_due [of s t cfg 12] w ct by (simp add: max_absorb1)
      moreover have "down_run cfg (Suc 11) ?s1 = ?s2 # down_run cfg 11 ?s2"
        using down_run_due [of ?s1 "t + ms 100" cfg 11] s1 by (simp add: max_absorb1)
      ultimately show ?thesis by simp
    qed
    ultimately show ?thesis by auto
  next
    case 3
    with inv obtain t where w: "work (drv s) = Delayed t" and ct: "clock s \<le> t"
      and rt: "reset_timestamp (drv s) \<le> clock s"
      by (auto simp: drv_inv_def sched_ok_def)
    let ?s1 = "step_at cfg t (fail_env cfg s)"
    have s1: "state (drv ?s1) = CONFIGURE" "reset_timestamp (drv ?s1) = reset_timestamp (drv s)"
        "work (drv ?s1) = Delayed (t + ms 1)"
      using 3 RunImpl_down_wait [OF _ fail_env_down2, of "(drv s)\<lparr>work := fire (work (drv s))\<rparr>"]
      by (simp_all add: step_at_fail)
    have "RESET \<in> set (map ?f (down_run cfg (Suc 11) ?s1))"
      by (rule down_run_configure [where t = "t + ms 1"]) (use s1 nl ct rt in simp_all)
    moreover have "down_run cfg 13 s = ?s1 # down_run cfg 12 ?s1"
      using down_run_due [of s t cfg 12] w ct by (simp add: max_absorb1)
    ultimately show ?thesis by auto
  next
    case 4
    with inv obtain t where w: "work (drv s) = Delayed t" and ct: "clock s \<le> t"
      and rt: "reset_timestamp (drv s) \<le> clock s"
      by (auto simp: drv_inv_def sched_ok_def)
    have "RESET \<in> set (map ?f (down_run cfg (Suc 11) s))"
      by (rule down_run_configure [where t = t]) (use 4 w nl ct rt in simp_all)
    with mono show ?thesis by auto
  qed
qed

theorem down_bus_returns_to_reset_witness:
  "reachable register_cfg (init_sys (\<lambda>_. 0) []) \<and> register_cfg \<noteq> []
   \<and> list_all (\<lambda>c. set_bits c \<noteq> 0) register_cfg
   \<and> RESET \<in> set (map (\<lambda>s. state (drv s)) (down_run register_cfg 13 (init_sys (\<lambda>_. 0) [])))"
proof -
  have h: "list_all (\<lambda>c. set_bits c \<noteq> 0) register_cfg"
    by (simp add: register_cfg_def bit_constants)
  show ?thesis
    using down_bus_returns_to_reset [OF init_reachable register_cfg_nonempty h]
      init_reachable register_cfg_nonempty h by simp
qed

end
