(* ===== verification/BringUp.thy ===== *)
theory BringUp
  imports System
begin

text \<open>
  The bring-up phase: the runs of a punctual scheduler while the driver is in
  \<open>WAIT_FOR_RESET\<close> or \<open>CONFIGURE\<close> (\<open>RunImpl\<close>, \<open>QMC5883L.cpp\<close> lines 109--151).
  The loop has no fuel: it is a \<open>function\<close> whose termination is proved. Every run
  of the phase moves the clock forward to the run's due time, and the reset time does
  not change, so the time left of the 1000 ms budget shrinks; once the budget is spent,
  each run moves the state down the order \<open>WAIT_FOR_RESET\<close>, \<open>CONFIGURE\<close>, out of the
  phase. The loop therefore ends, whatever the bus and the device answer, in
  \<open>READ\<close> or \<open>RESET\<close>.
\<close>

function bring_up :: "register_config_t list \<Rightarrow> sys \<Rightarrow> sys" where
  "bring_up cfg s =
     (case work (drv s) of
        Delayed t \<Rightarrow>
          (if in_bring_up (state (drv s)) \<and> clock s < t then bring_up cfg (step_at cfg t s) else s)
      | _ \<Rightarrow> s)"
  by pat_completeness auto
termination
proof (relation "measures [\<lambda>(cfg, s). Suc (reset_timestamp (drv s) + ms 1000) - clock s,
                           \<lambda>(cfg, s). bring_up_rank (state (drv s))]")
  fix cfg and s :: sys and t
  assume w: "work (drv s) = Delayed t" and g: "in_bring_up (state (drv s)) \<and> clock s < t"
  let ?d = "(drv s)\<lparr>work := fire (work (drv s))\<rparr>"
  have st: "in_bring_up (state ?d)" using g by simp
  have r: "reset_timestamp (drv (step_at cfg t s)) = reset_timestamp (drv s)"
    and c: "clock (step_at cfg t s) = t"
    using RunImpl_bring_up [OF st, of cfg t "bus s"] step_at_drv [of cfg t s] by simp_all
  have k: "ms 1000 < t - reset_timestamp (drv s) \<Longrightarrow>
      bring_up_rank (state (drv (step_at cfg t s))) < bring_up_rank (state (drv s))"
    using RunImpl_bring_up [OF st, of cfg t "bus s"] step_at_drv [of cfg t s] by simp
  show "((cfg, step_at cfg t s), cfg, s)
      \<in> measures [\<lambda>(cfg, s). Suc (reset_timestamp (drv s) + ms 1000) - clock s,
                  \<lambda>(cfg, s). bring_up_rank (state (drv s))]"
  proof (cases "clock s \<le> reset_timestamp (drv s) + ms 1000")
    case True
    with g r c show ?thesis by auto
  next
    case False
    with g r c k show ?thesis by auto
  qed
qed simp

declare bring_up.simps [simp del]

text \<open>
  In every reachable state of the phase the next run is due 1 ms or 100 ms after the
  clock: the delays \<open>RunImpl\<close> asks for on the way into and inside the phase.
\<close>

lemma reachable_bring_up_due:
  "reachable cfg s \<Longrightarrow> in_bring_up (state (drv s)) \<Longrightarrow>
     work (drv s) = Delayed (clock s + ms 1) \<or> work (drv s) = Delayed (clock s + ms 100)"
proof (induction rule: reachable.induct)
  case (start d fs)
  then show ?case
    by (simp add: init_sys_def booted_def init_def QMC5883L_new_def Reset_def
        schedule_defs in_bring_up_def)
next
  case (step s s')
  from step.hyps(2) show ?case
  proof (cases rule: sys_step.cases)
    case (run t now d' b')
    then show ?thesis
      using RunImpl_bring_up_work [of cfg now "(drv s)\<lparr>work := fire (work (drv s))\<rparr>" "bus s"] step.prems
      by simp
  next
    case (env d fs)
    then show ?thesis using step.IH step.prems by simp
  qed
qed

lemma step_at_reachable:
  assumes "reachable cfg s" and "work (drv s) = Delayed t" and "clock s \<le> t"
  shows "reachable cfg (step_at cfg t s)"
proof -
  obtain d' b' where r: "RunImpl cfg t ((drv s)\<lparr>work := fire (work (drv s))\<rparr>) (bus s) = (d', b')"
    by fastforce
  have "sys_step cfg s \<lparr>drv = d', bus = b', clock = t\<rparr>"
    by (rule sys_step.run [where t = t and now = t]) (use assms r in simp_all)
  moreover have "step_at cfg t s = \<lparr>drv = d', bus = b', clock = t\<rparr>"
    using r by (simp add: step_at_def)
  ultimately show ?thesis
    using assms(1) by (simp add: reachable.step)
qed

lemma bring_up_exit: "\<not> in_bring_up (state (drv s)) \<Longrightarrow> bring_up cfg s = s"
  by (subst bring_up.simps) (simp split: work.split)

lemma bring_up_go:
  "work (drv s) = Delayed t \<Longrightarrow> in_bring_up (state (drv s)) \<Longrightarrow> clock s < t \<Longrightarrow>
     bring_up cfg s = bring_up cfg (step_at cfg t s)"
  by (subst bring_up.simps) simp

lemma not_in_bring_up: "\<not> in_bring_up st \<longleftrightarrow> st \<in> {READ, RESET}"
  by (cases st) (simp_all add: in_bring_up_def)

text \<open>
  The induction behind the termination claim. The bound is the due time of the next
  run (plus 1 ms in \<open>WAIT_FOR_RESET\<close>, for the final \<open>CONFIGURE\<close> run after a late
  reset completion) or 1101 ms after the reset, whichever is later.
\<close>

lemma bring_up_bound:
  "reachable cfg s \<Longrightarrow>
     state (drv (bring_up cfg s)) \<in> {READ, RESET}
     \<and> (\<forall>t. in_bring_up (state (drv s)) \<longrightarrow> work (drv s) = Delayed t \<longrightarrow>
          clock (bring_up cfg s)
            \<le> max (t + (if state (drv s) = WAIT_FOR_RESET then ms 1 else 0))
                   (reset_timestamp (drv s) + ms 1101))"
proof (induction cfg s rule: bring_up.induct)
  case (1 cfg s)
  show ?case
  proof (cases "in_bring_up (state (drv s))")
    case False
    then show ?thesis
      by (simp add: bring_up_exit) (cases "state (drv s)"; simp add: in_bring_up_def)
  next
    case True
    obtain t where w: "work (drv s) = Delayed t" and lt: "clock s < t" and tle: "t \<le> clock s + ms 100"
      using reachable_bring_up_due [OF "1.prems" True] by auto
    let ?s' = "step_at cfg t s"
    let ?d = "(drv s)\<lparr>work := fire (work (drv s))\<rparr>"
    have reach': "reachable cfg ?s'"
      using step_at_reachable [OF "1.prems" w] lt by simp
    have IH: "state (drv (bring_up cfg ?s')) \<in> {READ, RESET}
       \<and> (\<forall>t'. in_bring_up (state (drv ?s')) \<longrightarrow> work (drv ?s') = Delayed t' \<longrightarrow>
          clock (bring_up cfg ?s')
            \<le> max (t' + (if state (drv ?s') = WAIT_FOR_RESET then ms 1 else 0))
                   (reset_timestamp (drv ?s') + ms 1101))"
      using "1.IH" [OF w _ reach'] True lt by simp
    have eq: "bring_up cfg s = bring_up cfg ?s'"
      using bring_up_go [OF w True lt] .
    have st: "in_bring_up (state ?d)" using True by simp
    have facts: "reset_timestamp (drv ?s') = reset_timestamp (drv s)" "clock ?s' = t"
        "ms 1000 < t - reset_timestamp (drv s) \<Longrightarrow>
           bring_up_rank (state (drv ?s')) < bring_up_rank (state (drv s))"
        "ms 1000 < t - reset_timestamp (drv s) \<Longrightarrow> in_bring_up (state (drv ?s')) \<Longrightarrow>
           work (drv ?s') = Delayed (t + ms 1)"
      using RunImpl_bring_up [OF st, of cfg t "bus s"] step_at_drv [of cfg t s] by simp_all
    have "clock (bring_up cfg ?s')
        \<le> max (t + (if state (drv s) = WAIT_FOR_RESET then ms 1 else 0))
               (reset_timestamp (drv s) + ms 1101)"
    proof (cases "in_bring_up (state (drv ?s'))")
      case False
      then show ?thesis using facts(2) by (simp add: bring_up_exit)
    next
      case True': True
      obtain t' where w': "work (drv ?s') = Delayed t'" and t': "t' \<le> t + ms 100"
        using reachable_bring_up_due [OF reach' True'] facts(2) by auto
      show ?thesis
      proof (cases "ms 1000 < t - reset_timestamp (drv s)")
        case False
        have "clock (bring_up cfg ?s')
            \<le> max (t' + (if state (drv ?s') = WAIT_FOR_RESET then ms 1 else 0))
                   (reset_timestamp (drv s) + ms 1101)"
          using IH w' True' facts(1) by simp
        moreover have "t' + (if state (drv ?s') = WAIT_FOR_RESET then ms 1 else 0)
            \<le> reset_timestamp (drv s) + ms 1101"
          using False t' by (simp split: if_split) linarith
        ultimately show ?thesis
          by simp
      next
        case late: True
        have "state (drv ?s') = CONFIGURE" "state (drv s) = WAIT_FOR_RESET"
          using facts(3) [OF late] True' True
          by (cases "state (drv ?s')"; cases "state (drv s)"; simp add: in_bring_up_def)+
        then show ?thesis
          using IH facts(1) facts(4) [OF late True'] True' by auto
      qed
    qed
    then show ?thesis
      using IH eq w by simp
  qed
qed

text \<open>
  C27: the bring-up phase terminates. From every reachable state, the runs of a punctual
  scheduler while the driver is in \<open>WAIT_FOR_RESET\<close> or \<open>CONFIGURE\<close> stop, in
  \<open>READ\<close> or in \<open>RESET\<close>, whatever the bus and the device answer. The last of
  them happens no later than 101 ms after the current time or 1101 ms after the last
  reset, whichever is later: the 1000 ms budget of the code, one 100 ms retry delay, and
  the 1 ms step from \<open>WAIT_FOR_RESET\<close> to \<open>CONFIGURE\<close>.
\<close>

theorem bring_up_terminates:
  assumes "reachable cfg s"
  shows "state (drv (bring_up cfg s)) \<in> {READ, RESET}
    \<and> clock (bring_up cfg s) \<le> max (clock s + ms 101) (reset_timestamp (drv s) + ms 1101)"
proof (cases "in_bring_up (state (drv s))")
  case False
  then show ?thesis
    using bring_up_bound [OF assms] by (simp add: bring_up_exit)
next
  case True
  then obtain t where w: "work (drv s) = Delayed t" and t: "t \<le> clock s + ms 100"
    using reachable_bring_up_due [OF assms] by auto
  have "clock (bring_up cfg s)
      \<le> max (t + (if state (drv s) = WAIT_FOR_RESET then ms 1 else 0)) (reset_timestamp (drv s) + ms 1101)"
    using bring_up_bound [OF assms] True w by simp
  moreover have "t + (if state (drv s) = WAIT_FOR_RESET then ms 1 else 0) \<le> clock s + ms 101"
    using t by simp
  ultimately show ?thesis
    using bring_up_bound [OF assms] by simp
qed

theorem bring_up_terminates_witness:
  "reachable register_cfg (step_at register_cfg 0 (init_sys (\<lambda>_. 0x80) []))
   \<and> state (drv (bring_up register_cfg (step_at register_cfg 0 (init_sys (\<lambda>_. 0x80) [])))) \<in> {READ, RESET}
   \<and> clock (bring_up register_cfg (step_at register_cfg 0 (init_sys (\<lambda>_. 0x80) []))) \<le> ms 1101"
proof -
  have r0: "reachable register_cfg (init_sys (\<lambda>_. 0x80) [])"
    by (rule reachable.start)
  have i: "work (drv (init_sys (\<lambda>_. 0x80) [])) = Delayed 0" "clock (init_sys (\<lambda>_. 0x80) []) = 0"
      "state (drv (init_sys (\<lambda>_. 0x80) [])) = RESET"
    by (simp_all add: init_sys_def booted_def init_def QMC5883L_new_def Reset_def schedule_defs)
  have r1: "reachable register_cfg (step_at register_cfg 0 (init_sys (\<lambda>_. 0x80) []))"
    using step_at_reachable [OF r0 i(1)] i(2) by simp
  have c: "clock (step_at register_cfg 0 (init_sys (\<lambda>_. 0x80) [])) = 0"
      "reset_timestamp (drv (step_at register_cfg 0 (init_sys (\<lambda>_. 0x80) []))) = 0"
    using step_at_reset [OF i(3), of register_cfg 0] by simp_all
  show ?thesis
    using r1 bring_up_terminates [OF r1] c by simp
qed

end
