(* ===== verification/Sampling.thy ===== *)
theory Sampling
  imports System
begin

text \<open>
  The \<open>READ\<close> state over many runs (\<open>RunImpl\<close>, \<open>QMC5883L.cpp\<close> lines 153--234), on a
  working bus and a device that keeps its configuration, under a punctual scheduler.
  The driver's own runs are the whole story here: every transfer succeeds, no run
  writes a register, and the runs come every 20 ms. The register reads of the
  configuration check are visible in the bus trace as the only one-byte reads, which
  lets the round-robin order be stated on what the bus sees.
\<close>

definition holds_cfg :: "register_config_t list \<Rightarrow> (byte \<Rightarrow> byte) \<Rightarrow> bool" where
  "holds_cfg cfg d \<longleftrightarrow> list_all (\<lambda>c. check_value c (d (reg_addr (reg c)))) cfg"

text \<open>The addresses of the one-byte register reads in a trace, oldest first.\<close>

fun reads :: "bus_op list \<Rightarrow> byte list" where
  "reads [] = []"
| "reads (Transfer cmd n # tr) = reads tr @ (if n = 1 \<and> length cmd = 1 then cmd else [])"

text \<open>
  A reading system: in \<open>READ\<close>, on a working bus, the next run due 20 ms or more after
  the last configuration check and not before the clock. A sampling system moreover has
  a device that holds the table.
\<close>

definition reading :: "register_config_t list \<Rightarrow> sys \<Rightarrow> bool" where
  "reading cfg s \<longleftrightarrow>
     state (drv s) = READ \<and> reliable (bus s)
     \<and> checked_register (drv s) < length cfg \<and> consecutive_failures (drv s) \<le> 10
     \<and> (\<exists>t. work (drv s) = Interval (ms 20) t \<and> clock s \<le> t
            \<and> last_config_check_timestamp (drv s) + ms 20 \<le> t)"

definition sampling :: "register_config_t list \<Rightarrow> sys \<Rightarrow> bool" where
  "sampling cfg s \<longleftrightarrow> reading cfg s \<and> holds_cfg cfg (dev (bus s))"

text \<open>
  The number of runs, counted from the next one, before the configuration check is
  due, when the next run comes \<open>x\<close> microseconds after the last check.
\<close>

definition check_wait :: "nat \<Rightarrow> nat" where
  "check_wait x = (if ms 100 < x then 0 else (ms 100 - x) div ms 20 + 1)"

text \<open>
  A sampling system to start from: \<open>READ\<close> entered at time 0 with the first run at
  20 ms, the device holding \<open>register_cfg\<close> (\<open>CNTL1 = 0x05\<close>, \<open>SET_RESET = 0x01\<close>).
\<close>

definition sampling_example :: sys where
  "sampling_example =
     \<lparr>drv = (booted 0)\<lparr>state := READ, work := Interval (ms 20) (ms 20)\<rparr>,
      bus = \<lparr>dev = (\<lambda>a. if a = reg_addr CNTL1 then 0x05 else if a = reg_addr SET_RESET then 0x01 else 0),
             faults = [], trace = []\<rparr>,
      clock = 0\<rparr>"

text \<open>The same system after \<open>CNTL1\<close> drifted to \<open>0x15\<close> (the range bit set).\<close>

definition drift_example :: sys where
  "drift_example = sampling_example\<lparr>bus := (bus sampling_example)\<lparr>dev := (dev (bus sampling_example))(reg_addr CNTL1 := 0x15)\<rparr>\<rparr>"

lemma holds_cfg_nth:
  "holds_cfg cfg d \<Longrightarrow> i < length cfg \<Longrightarrow> check_value (cfg ! i) (d (reg_addr (reg (cfg ! i))))"
  by (simp add: holds_cfg_def list_all_length)

lemma reliable_upd [simp]:
  "reliable b \<Longrightarrow> reliable (b\<lparr>faults := tl (faults b), trace := tr\<rparr>)"
  by (simp add: reliable_def)

lemma dev_load_1: "dev_load d a 1 = [d a]"
  by (simp add: dev_load_def)

text \<open>One run of a reading system, at its due time, when a due check passes.\<close>

lemma step_at_reading:
  assumes S: "reading cfg s" and w: "work (drv s) = Interval (ms 20) t"
    and ok: "ms 100 < t - last_config_check_timestamp (drv s) \<Longrightarrow>
      check_value (cfg ! checked_register (drv s))
        (dev (bus s) (reg_addr (reg (cfg ! checked_register (drv s)))))"
  shows "state (drv (step_at cfg t s)) = READ
    \<and> work (drv (step_at cfg t s)) = Interval (ms 20) (t + ms 20)
    \<and> clock (step_at cfg t s) = t
    \<and> reliable (bus (step_at cfg t s))
    \<and> dev (bus (step_at cfg t s)) = dev (bus s)
    \<and> consecutive_failures (drv (step_at cfg t s)) = consecutive_failures (drv s)
    \<and> mag_samples (px4_mag (drv (step_at cfg t s))) = mag_samples (px4_mag (drv s))
    \<and> checked_register (drv (step_at cfg t s)) =
        (if ms 100 < t - last_config_check_timestamp (drv s)
         then next_checked cfg (checked_register (drv s)) else checked_register (drv s))
    \<and> last_config_check_timestamp (drv (step_at cfg t s)) =
        (if ms 100 < t - last_config_check_timestamp (drv s) then t
         else last_config_check_timestamp (drv s))
    \<and> reads (trace (bus (step_at cfg t s))) = reads (trace (bus s))
        @ (if ms 100 < t - last_config_check_timestamp (drv s)
           then [reg_addr (reg (cfg ! checked_register (drv s)))] else [])"
proof -
  have r: "reliable (bus s)" and st: "state (drv s) = READ"
    and c: "consecutive_failures (drv s) \<le> 10"
    using S by (simp_all add: reading_def)
  have nf: "\<not> fault_now (bus s)" using r by (rule reliable_fault_now)
  have nf': "\<not> fault_now (b\<lparr>faults := tl (faults b), trace := tr\<rparr>)" if "reliable b" for b :: bus and tr
    using that by (simp add: reliable_def)
  show ?thesis
    using st w ok nf nf' [OF r] nf' [OF reliable_upd [OF r]] c r
    by (cases "ms 100 < t - last_config_check_timestamp (drv s)")
       (simp_all add: step_at_def RunImpl_def step_simps RegisterCheck_eq dev_load_1 dev_load_def
        reliable_def split: prod.split)
qed

lemma step_at_sampling:
  assumes S: "sampling cfg s" and w: "work (drv s) = Interval (ms 20) t"
  shows "state (drv (step_at cfg t s)) = READ
    \<and> work (drv (step_at cfg t s)) = Interval (ms 20) (t + ms 20)
    \<and> clock (step_at cfg t s) = t
    \<and> reliable (bus (step_at cfg t s))
    \<and> dev (bus (step_at cfg t s)) = dev (bus s)
    \<and> consecutive_failures (drv (step_at cfg t s)) = consecutive_failures (drv s)
    \<and> mag_samples (px4_mag (drv (step_at cfg t s))) = mag_samples (px4_mag (drv s))
    \<and> checked_register (drv (step_at cfg t s)) =
        (if ms 100 < t - last_config_check_timestamp (drv s)
         then next_checked cfg (checked_register (drv s)) else checked_register (drv s))
    \<and> last_config_check_timestamp (drv (step_at cfg t s)) =
        (if ms 100 < t - last_config_check_timestamp (drv s) then t
         else last_config_check_timestamp (drv s))
    \<and> reads (trace (bus (step_at cfg t s))) = reads (trace (bus s))
        @ (if ms 100 < t - last_config_check_timestamp (drv s)
           then [reg_addr (reg (cfg ! checked_register (drv s)))] else [])"
proof -
  have "holds_cfg cfg (dev (bus s))" and "checked_register (drv s) < length cfg" and "reading cfg s"
    using S by (simp_all add: sampling_def reading_def)
  then show ?thesis
    using step_at_reading [OF _ w] holds_cfg_nth by blast
qed

text \<open>A due check of a register that reads wrong ends the run in \<open>RESET\<close>.\<close>

lemma step_at_reading_bad:
  assumes S: "reading cfg s" and w: "work (drv s) = Interval (ms 20) t"
    and due: "ms 100 < t - last_config_check_timestamp (drv s)"
    and bad: "\<not> check_value (cfg ! checked_register (drv s))
        (dev (bus s) (reg_addr (reg (cfg ! checked_register (drv s)))))"
  shows "state (drv (step_at cfg t s)) = RESET"
proof -
  have r: "reliable (bus s)" and st: "state (drv s) = READ"
    using S by (simp_all add: reading_def)
  have nf: "\<not> fault_now (bus s)" using r by (rule reliable_fault_now)
  have nf': "\<not> fault_now ((bus s)\<lparr>faults := tl (faults (bus s)), trace := tr\<rparr>)" for tr
    using r by (simp add: reliable_def)
  show ?thesis
    using st w due bad nf nf'
    by (simp add: step_at_def RunImpl_def step_simps RegisterCheck_eq dev_load_1 dev_load_def
        split: prod.split)
qed

lemma sampling_step:
  assumes S: "sampling cfg s" and w: "work (drv s) = Interval (ms 20) t"
  shows "sampling cfg (step_at cfg t s)"
proof -
  have i: "checked_register (drv s) < length cfg" and L: "last_config_check_timestamp (drv s) + ms 20 \<le> t"
    using S w by (auto simp: sampling_def reading_def)
  then have "0 < length cfg" by linarith
  then have "next_checked cfg (checked_register (drv s)) < length cfg"
    by (simp add: next_checked_def)
  with S w i L show ?thesis
    using step_at_sampling [OF S w] by (auto simp: sampling_def reading_def)
qed

lemma run_on_time_reading:
  assumes "reading cfg s" and "work (drv s) = Interval (ms 20) t"
  shows "run_on_time cfg (Suc n) s = step_at cfg t s # run_on_time cfg n (step_at cfg t s)"
  using assms by (auto simp: reading_def max_def Let_def)

lemma run_on_time_sampling:
  assumes "sampling cfg s" and "work (drv s) = Interval (ms 20) t"
  shows "run_on_time cfg (Suc n) s = step_at cfg t s # run_on_time cfg n (step_at cfg t s)"
  using assms run_on_time_reading by (simp add: sampling_def)

lemma reading_step:
  assumes S: "reading cfg s" and w: "work (drv s) = Interval (ms 20) t"
    and ok: "ms 100 < t - last_config_check_timestamp (drv s) \<Longrightarrow>
      check_value (cfg ! checked_register (drv s))
        (dev (bus s) (reg_addr (reg (cfg ! checked_register (drv s)))))"
  shows "reading cfg (step_at cfg t s)"
proof -
  have i: "checked_register (drv s) < length cfg" and L: "last_config_check_timestamp (drv s) + ms 20 \<le> t"
    using S w by (auto simp: reading_def)
  then have "0 < length cfg" by linarith
  then have "next_checked cfg (checked_register (drv s)) < length cfg"
    by (simp add: next_checked_def)
  with S w i L show ?thesis
    using step_at_reading [OF S w ok] by (auto simp: reading_def)
qed

lemma check_wait_step:
  assumes "ms 20 \<le> x" and "\<not> ms 100 < x"
  shows "check_wait (x + ms 20) = check_wait x - 1 \<and> 1 \<le> check_wait x"
proof -
  have "(ms 100 - x) = (ms 80 - x) + ms 20 \<or> (ms 100 < x + ms 20 \<and> ms 100 - x < ms 20)"
    using assms by linarith
  then show ?thesis
    using assms by (auto simp: check_wait_def)
qed

lemma check_wait_le: "ms 20 \<le> x \<Longrightarrow> check_wait x \<le> 5"
  by (simp add: check_wait_def) linarith

lemma cyclic_offset:
  fixes i len j :: nat
  assumes "i < len" and "j < len"
  shows "(i + (j + len - i) mod len) mod len = j"
proof -
  have "(i + (j + len - i) mod len) mod len = (j + len) mod len"
    using assms(1) by (simp add: mod_add_right_eq)
  also have "\<dots> = j" using assms(2) by simp
  finally show ?thesis .
qed

lemma cyclic_covers:
  fixes i len m j :: nat
  assumes "i < len" and "len \<le> m" and "j < len"
  shows "\<exists>k<m. (i + k) mod len = j"
proof -
  have "(i + (j + len - i) mod len) mod len = j"
    using cyclic_offset [OF assms(1,3)] .
  moreover have "(j + len - i) mod len < m"
    using assms by (meson le_less_trans less_le_trans mod_less_divisor zero_le)
  ultimately show ?thesis
    by blast
qed

text \<open>
  The induction over the runs: the time, state and publications of every run, and the
  register reads the bus sees, which continue the round robin from the current index,
  at least \<open>(n + 5 - check_wait x) div 6\<close> of them in \<open>n\<close> runs.
\<close>

lemma sampling_runs:
  assumes "sampling cfg s" and "work (drv s) = Interval (ms 20) t"
  shows "map (\<lambda>s'. (clock s', state (drv s'), mag_samples (px4_mag (drv s')))) (run_on_time cfg n s)
         = map (\<lambda>k. (t + k * ms 20, READ, mag_samples (px4_mag (drv s)))) [0..<n]
    \<and> (\<exists>m. reads (trace (bus (last (s # run_on_time cfg n s)))) =
            reads (trace (bus s))
            @ map (\<lambda>k. reg_addr (reg (cfg ! ((checked_register (drv s) + k) mod length cfg)))) [0..<m]
          \<and> (n + 5 - check_wait (t - last_config_check_timestamp (drv s))) div 6 \<le> m)"
  using assms
proof (induction n arbitrary: s t)
  case 0
  then show ?case by simp
next
  case (Suc n)
  let ?s' = "step_at cfg t s"
  let ?i = "checked_register (drv s)"
  let ?L = "last_config_check_timestamp (drv s)"
  let ?f = "\<lambda>i k. reg_addr (reg (cfg ! ((i + k) mod length cfg)))"
  have st: "state (drv ?s') = READ" "work (drv ?s') = Interval (ms 20) (t + ms 20)" "clock ?s' = t"
      "mag_samples (px4_mag (drv ?s')) = mag_samples (px4_mag (drv s))"
      "checked_register (drv ?s') = (if ms 100 < t - ?L then next_checked cfg ?i else ?i)"
      "last_config_check_timestamp (drv ?s') = (if ms 100 < t - ?L then t else ?L)"
      "reads (trace (bus ?s')) = reads (trace (bus s)) @ (if ms 100 < t - ?L then [?f ?i 0] else [])"
    using step_at_sampling [OF Suc.prems] Suc.prems(1) by (simp_all add: sampling_def reading_def)
  have i: "?i < length cfg" and L: "?L + ms 20 \<le> t"
    using Suc.prems by (auto simp: sampling_def reading_def)
  have IH: "map (\<lambda>s'. (clock s', state (drv s'), mag_samples (px4_mag (drv s')))) (run_on_time cfg n ?s')
         = map (\<lambda>k. (t + ms 20 + k * ms 20, READ, mag_samples (px4_mag (drv s)))) [0..<n]
    \<and> (\<exists>m. reads (trace (bus (last (?s' # run_on_time cfg n ?s')))) =
            reads (trace (bus ?s')) @ map (?f (checked_register (drv ?s'))) [0..<m]
          \<and> (n + 5 - check_wait (t + ms 20 - last_config_check_timestamp (drv ?s'))) div 6 \<le> m)"
    using Suc.IH [OF sampling_step [OF Suc.prems] st(2)] st(4) by simp
  have run: "run_on_time cfg (Suc n) s = ?s' # run_on_time cfg n ?s'"
    using run_on_time_sampling [OF Suc.prems] .
  have times: "map (\<lambda>s'. (clock s', state (drv s'), mag_samples (px4_mag (drv s')))) (run_on_time cfg (Suc n) s)
         = map (\<lambda>k. (t + k * ms 20, READ, mag_samples (px4_mag (drv s)))) [0..<Suc n]"
  proof -
    have "map (\<lambda>s'. (clock s', state (drv s'), mag_samples (px4_mag (drv s')))) (run_on_time cfg n ?s')
         = map (\<lambda>k. (t + ms 20 + k * ms 20, READ, mag_samples (px4_mag (drv s)))) [0..<n]"
      using IH by blast
    then show ?thesis
      using st by (simp only: run map_upt_Suc list.map) (simp add: algebra_simps)
  qed
  obtain m where m: "reads (trace (bus (last (?s' # run_on_time cfg n ?s')))) =
            reads (trace (bus ?s')) @ map (?f (checked_register (drv ?s'))) [0..<m]"
      and mb: "(n + 5 - check_wait (t + ms 20 - last_config_check_timestamp (drv ?s'))) div 6 \<le> m"
    using IH by blast
  have lst: "last (s # run_on_time cfg (Suc n) s) = last (?s' # run_on_time cfg n ?s')"
    by (simp only: run) simp
  have ex: "\<exists>m. reads (trace (bus (last (?s' # run_on_time cfg n ?s')))) =
            reads (trace (bus s)) @ map (?f ?i) [0..<m]
          \<and> (Suc n + 5 - check_wait (t - ?L)) div 6 \<le> m"
  proof (cases "ms 100 < t - ?L")
    case True
    have eqm: "map (?f ?i) [0..<Suc m] = ?f ?i 0 # map (?f (next_checked cfg ?i)) [0..<m]"
      using i by (simp add: map_upt_Suc next_checked_def mod_add_left_eq del: upt_Suc)
    have "reads (trace (bus (last (?s' # run_on_time cfg n ?s'))))
        = reads (trace (bus s)) @ map (?f ?i) [0..<Suc m]"
      using m st(5,7) True i unfolding eqm by (simp del: upt_Suc)
    moreover have "(Suc n + 5 - check_wait (t - ?L)) div 6 \<le> Suc m"
      using mb True st(6) by (simp add: check_wait_def)
    ultimately show ?thesis by blast
  next
    case False
    have x: "ms 20 \<le> t - ?L" using L by linarith
    have cw: "check_wait (t - ?L + ms 20) = check_wait (t - ?L) - 1" "1 \<le> check_wait (t - ?L)"
      using check_wait_step [OF x False] by simp_all
    have L': "last_config_check_timestamp (drv ?s') = ?L" and i': "checked_register (drv ?s') = ?i"
        and r': "reads (trace (bus ?s')) = reads (trace (bus s))"
      using st(5,6,7) False by simp_all
    have tt: "t + ms 20 - ?L = t - ?L + ms 20" using L by linarith
    have "(n + 5 - (check_wait (t - ?L) - 1)) div 6 \<le> m"
      using mb unfolding L' tt cw(1) .
    moreover have "n + 5 - (check_wait (t - ?L) - 1) = Suc n + 5 - check_wait (t - ?L)"
      using cw(2) by linarith
    moreover have "reads (trace (bus (last (?s' # run_on_time cfg n ?s'))))
        = reads (trace (bus s)) @ map (?f ?i) [0..<m]"
      using m unfolding i' r' .
    ultimately show ?thesis by auto
  qed
  show ?case
    unfolding lst by (rule conjI [OF times ex])
qed

text \<open>
  The induction behind drift detection: if the entry \<open>k\<close> places ahead of the current
  index reads wrong, a run within \<open>check_wait x + 1 + 6 * k\<close> runs ends in \<open>RESET\<close>:
  each check that passes moves one entry on, and checks come at most six runs apart.
\<close>

lemma reading_reset:
  assumes "reading cfg s" and "work (drv s) = Interval (ms 20) t"
    and "\<not> check_value (cfg ! ((checked_register (drv s) + k) mod length cfg))
           (dev (bus s) (reg_addr (reg (cfg ! ((checked_register (drv s) + k) mod length cfg)))))"
    and "check_wait (t - last_config_check_timestamp (drv s)) + 1 + 6 * k \<le> n"
  shows "RESET \<in> set (map (\<lambda>s'. state (drv s')) (run_on_time cfg n s))"
  using assms
proof (induction n arbitrary: s t k)
  case 0
  then show ?case by simp
next
  case (Suc n)
  let ?i = "checked_register (drv s)"
  let ?L = "last_config_check_timestamp (drv s)"
  let ?s' = "step_at cfg t s"
  let ?good = "\<lambda>j. check_value (cfg ! j) (dev (bus s) (reg_addr (reg (cfg ! j))))"
  have run: "run_on_time cfg (Suc n) s = ?s' # run_on_time cfg n ?s'"
    using run_on_time_reading [OF Suc.prems(1,2)] .
  have i: "?i < length cfg" and L: "?L + ms 20 \<le> t"
    using Suc.prems(1,2) by (auto simp: reading_def)
  show ?case
  proof (cases "ms 100 < t - ?L")
    case due: True
    show ?thesis
    proof (cases "?good ?i")
      case False
      then have "state (drv ?s') = RESET"
        using step_at_reading_bad [OF Suc.prems(1,2) due] by simp
      then show ?thesis unfolding run by simp
    next
      case good: True
      have k: "0 < k"
        using Suc.prems(3) good i by (cases k) auto
      have st: "checked_register (drv ?s') = (?i + 1) mod length cfg"
          "last_config_check_timestamp (drv ?s') = t" "dev (bus ?s') = dev (bus s)"
          "work (drv ?s') = Interval (ms 20) (t + ms 20)"
        using step_at_reading [OF Suc.prems(1,2)] good due by (simp_all add: next_checked_def)
      have R': "reading cfg ?s'"
        using reading_step [OF Suc.prems(1,2)] good by blast
      have "((?i + 1) mod length cfg + (k - 1)) mod length cfg = (?i + 1 + (k - 1)) mod length cfg"
        by (rule mod_add_left_eq)
      also have "?i + 1 + (k - 1) = ?i + k" using k by simp
      finally have off: "((?i + 1) mod length cfg + (k - 1)) mod length cfg = (?i + k) mod length cfg" .
      have bad': "\<not> check_value (cfg ! ((checked_register (drv ?s') + (k - 1)) mod length cfg))
          (dev (bus ?s') (reg_addr (reg (cfg ! ((checked_register (drv ?s') + (k - 1)) mod length cfg)))))"
        using Suc.prems(3) unfolding st(1,3) off .
      have "check_wait (t + ms 20 - t) + 1 + 6 * (k - 1) \<le> n"
        using Suc.prems(4) due k by (simp add: check_wait_def)
      then have bnd: "check_wait (t + ms 20 - last_config_check_timestamp (drv ?s')) + 1 + 6 * (k - 1) \<le> n"
        unfolding st(2) .
      have "RESET \<in> set (map (\<lambda>s'. state (drv s')) (run_on_time cfg n ?s'))"
        using Suc.IH [OF R' st(4) bad' bnd] .
      then show ?thesis unfolding run by simp
    qed
  next
    case nd: False
    have x: "ms 20 \<le> t - ?L" using L by linarith
    have cw: "check_wait (t - ?L + ms 20) = check_wait (t - ?L) - 1" "1 \<le> check_wait (t - ?L)"
      using check_wait_step [OF x nd] by simp_all
    have st: "checked_register (drv ?s') = ?i" "last_config_check_timestamp (drv ?s') = ?L"
        "dev (bus ?s') = dev (bus s)" "work (drv ?s') = Interval (ms 20) (t + ms 20)"
      using step_at_reading [OF Suc.prems(1,2)] nd by simp_all
    have R': "reading cfg ?s'"
      using reading_step [OF Suc.prems(1,2)] nd by blast
    have tt: "t + ms 20 - ?L = t - ?L + ms 20" using L by linarith
    have bnd: "check_wait (t + ms 20 - last_config_check_timestamp (drv ?s')) + 1 + 6 * k \<le> n"
      unfolding st(2) tt cw(1) using Suc.prems(4) cw(2) by linarith
    have bad': "\<not> check_value (cfg ! ((checked_register (drv ?s') + k) mod length cfg))
          (dev (bus ?s') (reg_addr (reg (cfg ! ((checked_register (drv ?s') + k) mod length cfg)))))"
      using Suc.prems(3) unfolding st(1,3) .
    have "RESET \<in> set (map (\<lambda>s'. state (drv s')) (run_on_time cfg n ?s'))"
      using Suc.IH [OF R' st(4) bad' bnd] .
    then show ?thesis unfolding run by simp
  qed
qed

lemma sampling_example_ok:
  "sampling register_cfg sampling_example \<and> work (drv sampling_example) = Interval (ms 20) (ms 20)"
  by (simp add: sampling_def reading_def sampling_example_def booted_def init_def QMC5883L_new_def Reset_def
      schedule_defs reliable_def holds_cfg_def register_cfg_def check_value_bitwise bit_constants)

text \<open>
  C29: \<open>READ\<close> is never left while the bus works and the device keeps its
  configuration. The driver then runs every 20 ms, stays in \<open>READ\<close> for any number
  of runs, and publishes nothing. Every one of these runs is a failed decode (the guard
  of line 178 never holds), so the specification's failure threshold (section 8: reset
  after the 11th consecutive decode failure) would have reset the machine after 11 runs;
  the code never does.
\<close>

theorem sampling_stays_read:
  assumes "sampling cfg s" and "work (drv s) = Interval (ms 20) t"
  shows "map (\<lambda>s'. (clock s', state (drv s'), mag_samples (px4_mag (drv s')))) (run_on_time cfg n s)
         = map (\<lambda>k. (t + k * ms 20, READ, mag_samples (px4_mag (drv s)))) [0..<n]"
  using sampling_runs [OF assms] by blast

theorem sampling_stays_read_witness:
  "sampling register_cfg sampling_example \<and> work (drv sampling_example) = Interval (ms 20) (ms 20)
   \<and> map (\<lambda>s'. state (drv s')) (run_on_time register_cfg 12 sampling_example) = replicate 12 READ"
proof -
  have "map (\<lambda>s'. (clock s', state (drv s'), mag_samples (px4_mag (drv s'))))
            (run_on_time register_cfg 12 sampling_example)
        = map (\<lambda>k. (ms 20 + k * ms 20, READ, mag_samples (px4_mag (drv sampling_example)))) [0..<12]"
    using sampling_stays_read [OF sampling_example_ok [THEN conjunct1] sampling_example_ok [THEN conjunct2]] .
  then have "map (\<lambda>x. fst (snd x)) (map (\<lambda>s'. (clock s', state (drv s'), mag_samples (px4_mag (drv s'))))
            (run_on_time register_cfg 12 sampling_example))
        = map (\<lambda>x. fst (snd x)) (map (\<lambda>k. (ms 20 + k * ms 20, READ, mag_samples (px4_mag (drv sampling_example)))) [0..<12])"
    by (rule arg_cong)
  then have "map (\<lambda>s'. state (drv s')) (run_on_time register_cfg 12 sampling_example) = replicate 12 READ"
    by (simp add: comp_def map_replicate_const del: upt_Suc)
  with sampling_example_ok show ?thesis by simp
qed

text \<open>
  C30: round-robin coverage over runs (specification, section 8). Under the same
  conditions, the register reads the bus sees continue the round robin of the table
  from the current index. At least one check happens every six runs (a check is due
  once more than 100 ms have passed, and runs are 20 ms apart). So \<open>6 * length cfg\<close>
  runs validate every entry of the table.
\<close>

theorem sampling_round_robin:
  assumes "sampling cfg s" and "work (drv s) = Interval (ms 20) t"
  shows "\<exists>m. reads (trace (bus (last (s # run_on_time cfg n s)))) =
             reads (trace (bus s))
             @ map (\<lambda>k. reg_addr (reg (cfg ! ((checked_register (drv s) + k) mod length cfg)))) [0..<m]
           \<and> n div 6 \<le> m
           \<and> (6 * length cfg \<le> n \<longrightarrow>
                (\<lambda>c. reg_addr (reg c)) ` set cfg
                \<subseteq> set (map (\<lambda>k. reg_addr (reg (cfg ! ((checked_register (drv s) + k) mod length cfg)))) [0..<m]))"
proof -
  let ?i = "checked_register (drv s)"
  obtain m where m: "reads (trace (bus (last (s # run_on_time cfg n s)))) =
             reads (trace (bus s))
             @ map (\<lambda>k. reg_addr (reg (cfg ! ((?i + k) mod length cfg)))) [0..<m]"
      and mb: "(n + 5 - check_wait (t - last_config_check_timestamp (drv s))) div 6 \<le> m"
    using sampling_runs [OF assms, of n] by blast
  have "ms 20 \<le> t - last_config_check_timestamp (drv s)"
    using assms by (auto simp: sampling_def reading_def)
  then have "check_wait (t - last_config_check_timestamp (drv s)) \<le> 5"
    by (rule check_wait_le)
  then have nm: "n div 6 \<le> m"
    using mb div_le_mono [of n "n + 5 - check_wait (t - last_config_check_timestamp (drv s))" 6] by linarith
  have i: "?i < length cfg" using assms by (simp add: sampling_def reading_def)
  have cover: "(\<lambda>c. reg_addr (reg c)) ` set cfg
      \<subseteq> set (map (\<lambda>k. reg_addr (reg (cfg ! ((?i + k) mod length cfg)))) [0..<m])"
    if n6: "6 * length cfg \<le> n"
  proof
    fix a assume "a \<in> (\<lambda>c. reg_addr (reg c)) ` set cfg"
    then obtain j where j: "j < length cfg" and a: "a = reg_addr (reg (cfg ! j))"
      by (auto simp: in_set_conv_nth)
    have "length cfg \<le> m" using n6 nm by linarith
    then obtain k where "k < m" "(?i + k) mod length cfg = j"
      using cyclic_covers [OF i _ j] by blast
    then show "a \<in> set (map (\<lambda>k. reg_addr (reg (cfg ! ((?i + k) mod length cfg)))) [0..<m])"
      using a by auto
  qed
  show ?thesis
    using m nm cover by blast
qed

theorem sampling_round_robin_witness:
  "sampling register_cfg sampling_example \<and> work (drv sampling_example) = Interval (ms 20) (ms 20)
   \<and> (\<exists>m. reads (trace (bus (last (sampling_example # run_on_time register_cfg 12 sampling_example))))
          = map (\<lambda>k. reg_addr (reg (register_cfg ! (k mod 2)))) [0..<m] \<and> 2 \<le> m)"
proof -
  have c: "checked_register (drv sampling_example) = 0" "trace (bus sampling_example) = []"
      "length register_cfg = 2"
    by (simp_all add: sampling_example_def booted_def init_def QMC5883L_new_def Reset_def
        schedule_defs register_cfg_def)
  show ?thesis
    using sampling_round_robin [OF sampling_example_ok [THEN conjunct1] sampling_example_ok [THEN conjunct2],
        of 12] sampling_example_ok c
    by auto
qed

text \<open>
  C33: configuration drift is detected (specification, sections 4.2 and 7). In \<open>READ\<close>
  on a working bus, if the device holds a value that fails the check of some entry of
  the table, the machine is in \<open>RESET\<close> after one of the next \<open>6 * length cfg\<close> runs,
  that is within \<open>120 * length cfg\<close> ms. The round robin reaches the entry, and checks
  come at most six runs apart.
\<close>

theorem drift_detected:
  assumes "reading cfg s" and "work (drv s) = Interval (ms 20) t"
    and "c \<in> set cfg" and "\<not> check_value c (dev (bus s) (reg_addr (reg c)))"
  shows "RESET \<in> set (map (\<lambda>s'. state (drv s')) (run_on_time cfg (6 * length cfg) s))"
proof -
  let ?i = "checked_register (drv s)"
  obtain j where j: "j < length cfg" "cfg ! j = c"
    using assms(3) by (auto simp: in_set_conv_nth)
  have i: "?i < length cfg" and L: "last_config_check_timestamp (drv s) + ms 20 \<le> t"
    using assms(1,2) by (auto simp: reading_def)
  let ?k = "(j + length cfg - ?i) mod length cfg"
  have off: "(?i + ?k) mod length cfg = j"
    using cyclic_offset [OF i j(1)] .
  have "0 < length cfg" using i by linarith
  then have "?k < length cfg" by simp
  moreover have "check_wait (t - last_config_check_timestamp (drv s)) \<le> 5"
    using L by (intro check_wait_le) linarith
  ultimately have "check_wait (t - last_config_check_timestamp (drv s)) + 1 + 6 * ?k \<le> 6 * length cfg"
    by linarith
  then show ?thesis
    using reading_reset [OF assms(1,2), of ?k] off j assms(4) by simp
qed

theorem drift_detected_witness:
  "reading register_cfg drift_example \<and> work (drv drift_example) = Interval (ms 20) (ms 20)
   \<and> register_cfg ! 0 \<in> set register_cfg
   \<and> \<not> check_value (register_cfg ! 0) (dev (bus drift_example) (reg_addr (reg (register_cfg ! 0))))
   \<and> RESET \<in> set (map (\<lambda>s'. state (drv s')) (run_on_time register_cfg 12 drift_example))"
proof -
  have h: "reading register_cfg drift_example" "work (drv drift_example) = Interval (ms 20) (ms 20)"
      "register_cfg ! 0 \<in> set register_cfg"
      "\<not> check_value (register_cfg ! 0) (dev (bus drift_example) (reg_addr (reg (register_cfg ! 0))))"
    by (simp_all add: reading_def drift_example_def sampling_example_def booted_def init_def
        QMC5883L_new_def Reset_def schedule_defs reliable_def register_cfg_def check_value_bitwise
        bit_constants)
  have "length register_cfg = 2" by (simp add: register_cfg_def)
  then show ?thesis
    using h drift_detected [OF h] by simp
qed

end
