(* ===== verification/Spec2Isabelle.thy ===== *)
theory Spec2Isabelle
  imports BringUp Sampling
begin

text \<open>
  \<^bold>\<open>A verified model of the PX4 QMC5883L magnetometer driver\<close>
  (\<open>src/src/drivers/magnetometer/qmc5883l/QMC5883L.cpp\<close>).

  \<^bold>\<open>The program.\<close> The driver is a state machine (\<open>QMC5883L::RunImpl\<close>) that a work
  queue runs over and over. It resets the device (\<open>RESET\<close>), waits for the reset to
  complete (\<open>WAIT_FOR_RESET\<close>), writes and validates its configuration table
  (\<open>CONFIGURE\<close>, via \<open>Configure\<close> and \<open>RegisterCheck\<close>), then samples at 50 Hz
  (\<open>READ\<close>). While sampling it re-checks one configuration register per cycle
  (round robin) and reads the temperature at most once per second. Every step
  reschedules itself through the work item. All register traffic goes through
  \<open>RegisterRead\<close>, \<open>RegisterWrite\<close> and \<open>RegisterSetAndClearBits\<close> over the I2C
  \<open>transfer\<close>.

  \<^bold>\<open>The library, leaf first.\<close>
  \<^item> \<open>Prelude\<close>: the machine types (\<open>byte\<close> = \<open>uint8_t\<close> as \<open>8 word\<close>, \<open>int16\<close> as
    \<open>16 word\<close>, \<open>hrt_abstime\<close> as \<open>nat\<close> microseconds), the time literals, the
    \<open>drv_defs\<close> collection, and the mask lemmas shared by the register layer and the
    validator.
  \<^item> \<open>Registers\<close>: the register enumeration with its addresses (ordered by address,
    an instance of \<open>linorder\<close>), the bit constants, \<open>register_config_t\<close> and the
    driver's table \<open>register_cfg\<close>. These come from the headers, which are not under
    \<open>src/\<close>, and are modelled from the specification and the data sheet. Also the
    well-formedness of a table, \<open>cfg_wf\<close>.
  \<^item> \<open>Bus\<close>: the Byte Transfer Port as a bus state (device register file, a script of
    transfer outcomes, the trace of transfers issued) and the Register Access Layer.
    Also \<open>probe\<close>, with the transfer's status code (\<open>PX4_OK\<close> or an error).
    Lemmas: the result of each access on success and on failure. \<open>RegisterRead\<close> returns
    \<open>0\<close> when the transfer fails, as the code does. \<open>probe\<close> reports exactly the outcome
    of its read.
  \<^item> \<open>Config\<close>: \<open>RegisterCheck\<close> and the two loops of \<open>Configure\<close>.
    \<open>apply_entries\<close> is the abstract effect of the apply loop, and
    \<open>configure_apply_refines\<close> shows that the bus-level loop implements it. Lemmas:
    validation succeeds exactly for well-formed tables; a second application issues no
    write; the validator is the specification's bitwise check. The validator accepts exactly four values
    of \<open>CNTL1\<close>, two of which select a 200 Hz output rate.
  \<^item> \<open>Decode\<close>: \<open>combine\<close>, the \<open>TransferBuffer\<close> layout, the line-178 guard
    exactly as written, saturating negation and axis remap, and the temperature
    conversion. Lemmas: byte round trip, \<open>uint\<close>/\<open>sint\<close> of the assembled value, the remap,
    and that the guard never holds.
    The specification's Sample Decoder is written on integers (\<open>spec_decode\<close>), and
    \<open>decoder_refines_spec\<close> shows that the word-level pipeline computes it exactly once
    the status byte is tested bitwise. This is what the one-line fix of line 178 would
    publish.
  \<^item> \<open>Lifecycle\<close>: the driver record (the class members \<open>RunImpl\<close> uses, the
    diagnostics counters among them), the scheduler, publisher and \<open>perf_count\<close> calls it
    makes, the constructor \<open>QMC5883L_new\<close>, \<open>Reset\<close>, \<open>init\<close> (which takes the status of
    \<open>I2C::init\<close>), and one definition per case of \<open>RunImpl\<close>. \<open>READ\<close> is split as the code splits it: \<open>read_sample\<close>,
    \<open>read_temperature\<close>, \<open>failure_threshold\<close>, \<open>run_read\<close>. Lemmas: the transitions of
    every row of the state table, the refinement of \<open>Configure\<close>, the start-up through
    \<open>init\<close>, which failures the diagnostics count, and the failure threshold.
  \<^item> \<open>System\<close>: the closed system. The scheduler fires a pending run at or after its
    due time (a one-shot run is consumed, a recurring one re-armed), the clock is
    monotonic, and the environment may change any register and the outcome of later
    transfers between runs. \<open>reachable\<close> is defined inductively from \<open>init\<close>.
    \<open>drv_inv\<close> is the invariant, proved by rule induction. It yields the properties of every
    reachable state: no sample is ever published, the failure counter stays 0, the
    round-robin index stays in range, timestamps never exceed the clock, a run is always
    pending (50 Hz exactly in \<open>READ\<close>), and published temperatures are more than 1 s apart.
  \<^item> \<open>BringUp\<close>: the runs of \<open>WAIT_FOR_RESET\<close> and \<open>CONFIGURE\<close> as a \<open>function\<close>
    without fuel. Its termination is proved with a lexicographic measure: the time left of
    the 1000 ms budget, then the state's rank. The phase always ends in \<open>READ\<close> or
    \<open>RESET\<close>, within 1101 ms of the reset.
  \<^item> \<open>Sampling\<close>: long runs of \<open>READ\<close> on a working bus and a configured device. The
    machine stays in \<open>READ\<close> forever, against the failure threshold of the specification.
    The configuration checks, read off the bus trace, cover the table round robin, at least
    one per six runs. A device whose registers drift away from the table is detected:
    \<open>RESET\<close> follows within \<open>6 * length cfg\<close> runs.

  \<^bold>\<open>Modelling choices.\<close> One clock reading serves a whole step: the source reads the
  clock for \<open>timestamp_sample\<close> and again in \<open>hrt_elapsed_time\<close>, microseconds apart.
  \<open>hrt_abstime\<close> is \<open>nat\<close>: a 64-bit microsecond count does not wrap, and the invariant
  \<open>reachable_timestamps_le_clock\<close> shows that the truncated subtraction equals the
  code's. A failed transfer writes nothing and leaves the caller's zero-initialised
  buffer. Floating-point arithmetic (the scale \<open>1/12000\<close>, \<open>temperature_raw / 100.f\<close>) is
  modelled over the reals, so rounding is not modelled, and no property states a bound on
  a float result: in single precision \<open>32767 / 100.f\<close> rounds above \<open>327.67\<close>. The fault script is finite, and
  an exhausted script means a working bus; the environment step may install any script,
  so every pattern of failures is covered.

  \<^bold>\<open>Not modelled.\<close> The destructor only frees the performance counters, and
  \<open>print_status\<close> and the debug output only print; neither changes a state of the model.
  Registration, bus number, frequency and work-queue wiring belong to the base classes. The
  duration measured by \<open>perf_begin\<close>/\<open>perf_end\<close> is not modelled, only the count of
  intervals. The rotation and
  publication done inside \<open>PX4Magnetometer\<close> are outside \<open>src/\<close>. \<open>I2C::init\<close> is
  taken to succeed.

  \<^bold>\<open>Findings.\<close> The guard of line 178 is constantly false, so the driver never
  publishes a sample (\<open>reachable_never_publishes\<close>). The failure counter is never
  incremented (\<open>reachable_failure_counter_zero\<close>). A failed read is indistinguishable
  from a zero register, which makes \<open>WAIT_FOR_RESET\<close> proceed
  (\<open>wait_for_reset_step\<close>) and makes \<open>RegisterSetAndClearBits\<close> overwrite the register
  with \<open>set_bits\<close> (\<open>RegisterSetAndClearBits_failed_read\<close>). The \<open>CNTL1\<close> entry
  leaves bits 1 and 3 unchecked, so a drift to a 200 Hz output rate passes validation
  (\<open>CNTL1_check_accepts\<close>). Only failed sample transfers reach the diagnostics
  (\<open>RunImpl_diagnostics\<close>). The machine never leaves \<open>READ\<close> on decode failures
  (\<open>sampling_stays_read\<close>).

  \<^bold>\<open>Runs, fuel and liveness.\<close> \<open>run_on_time\<close> is a punctual scheduler: each run
  happens at its due time. \<open>down_run\<close> is the same scheduler with the bus failing for
  every transfer of every run. Both take fuel, the number of runs, and every state they
  produce is reachable (\<open>run_on_time_reachable\<close>, \<open>down_run_reachable\<close>). The fuel
  chosen is enough for each property:
  \<^item> \<open>down_bus_returns_to_reset\<close>: from every reachable state, 13 runs under persistent
    failure reach \<open>RESET\<close>. The slowest path starts in \<open>WAIT_FOR_RESET\<close>: one run
    to \<open>CONFIGURE\<close> (a failed read looks like a completed reset), then retries 100 ms
    apart until more than 1000 ms have passed since the reset, which takes at most 12 runs.
    The argument is an induction on the retries left (\<open>down_run_configure\<close>).
  \<^item> Round-robin coverage (\<open>round_robin_covers\<close>): the index update \<open>next_checked\<close>
    visits every entry in \<open>length cfg\<close> passing checks. \<open>read_check_pass_advances\<close>
    shows that a passing check applies it.

  \<^item> \<open>bring_up_terminates\<close> needs no fuel: the loop is a terminating \<open>function\<close>.
  \<^item> \<open>sampling_stays_read\<close> and \<open>sampling_round_robin\<close> hold for every fuel \<open>n\<close>.
    \<open>drift_detected\<close> uses \<open>6 * length cfg\<close> runs: at most five runs before the first
    check, then six per entry passed.
    The initial state's next run must be at least 20 ms after its last check, which holds
    on entry to \<open>READ\<close> and after every punctual run.

  \<^bold>\<open>Limits of the model.\<close> The environment of \<open>Sampling\<close> and \<open>BringUp\<close> is the
  driver's own runs: the device changes only through the driver's transfers.
  \<open>reachable\<close> covers arbitrary device changes between runs, and the invariants hold for
  it. The temperature rate is proved as a ceiling (more than 1 s apart), not as a
  guaranteed rate, which matches the specification's best-effort wording.
\<close>

end
